theory Spec2Isabelle
  imports Main
begin

section \<open>Admin classes of the shop: a shallow embedding of \<^verbatim>\<open>cartridge/shop/admin.py\<close>\<close>

text \<open>
  Embedded are the parts of the module that compute: the module-level lists and fieldsets
  that depend on the settings, \<^verbatim>\<open>address_pairs\<close>, and the methods of \<^verbatim>\<open>ProductAdmin\<close>
  (\<^verbatim>\<open>__init__\<close>, \<^verbatim>\<open>save_model\<close>, \<^verbatim>\<open>in_menu\<close>, \<^verbatim>\<open>save_formset\<close>,
  \<^verbatim>\<open>change_view\<close>). The remaining classes only bind constant attributes. What the module
  imports from Django and Mezzanine (the base classes, \<^verbatim>\<open>QueryDict\<close>,
  \<^verbatim>\<open>get_object_or_404\<close>, \<^verbatim>\<open>admin_url\<close>, \<^verbatim>\<open>DisplayableAdmin.fieldsets\<close>) appears as
  parameters or as small functions with the behaviour their documentation gives.
\<close>

subsection \<open>Python values used by the module\<close>

text \<open>
  An entry of a \<^verbatim>\<open>"fields"\<close> sequence is either a bare field name or a tuple of
  names shown on one line. \<^verbatim>\<open>zip\<close> produces two-element tuples.
\<close>

datatype 'a entry = Single 'a | Tuple "'a list"

fun flatten_entry :: "'a entry \<Rightarrow> 'a list" where
  "flatten_entry (Single a) = [a]"
| "flatten_entry (Tuple as) = as"

definition flatten :: "'a entry list \<Rightarrow> 'a list" where
  "flatten es = concat (map flatten_entry es)"

text \<open>The extended slice \<^verbatim>\<open>xs[::2]\<close>; \<^verbatim>\<open>xs[1::2]\<close> is the same slice of \<^verbatim>\<open>xs[1:]\<close>.\<close>

fun slice_step2 :: "'a list \<Rightarrow> 'a list" where
  "slice_step2 [] = []"
| "slice_step2 [x] = [x]"
| "slice_step2 (x # y # r) = x # slice_step2 r"

subsection \<open>\<^verbatim>\<open>address_pairs\<close>\<close>

text \<open>
  \<^verbatim>\<open>
  def address_pairs(fields):
      pairs = list(zip(fields[::2], fields[1::2]))
      if len(fields) % 2:
          pairs.append(fields[-1])
      return pairs
  \<close>
  \<^verbatim>\<open>fields[-1]\<close> is only read when the length is odd, hence on a non-empty list.
\<close>

definition address_pairs :: "'a list \<Rightarrow> 'a entry list" where
  "address_pairs fields =
     (let pairs = map (\<lambda>(a, b). Tuple [a, b])
                      (zip (slice_step2 fields) (slice_step2 (drop 1 fields)))
      in if length fields mod 2 \<noteq> 0 then pairs @ [Single (last fields)] else pairs)"

subsection \<open>Exceptions and model classes\<close>

text \<open>
  The exceptions that can leave the functions of the module: the framework's \<^verbatim>\<open>Http404\<close>
  (raised by \<^verbatim>\<open>get_object_or_404\<close>), \<^verbatim>\<open>ValueError\<close> (raised by the framework when it
  converts a primary key that is no number), Python's own \<^verbatim>\<open>AttributeError\<close> (an
  attribute that was never assigned, or a list method called on a tuple) and
  \<^verbatim>\<open>IndexError\<close>, and \<open>Raised\<close> for whatever else a method of the framework raises.
\<close>

datatype exn = Http404 | ValueError | AttributeError string | IndexError | Raised string

datatype model_class = Product | ProductImage | ProductVariation | OtherModel string

subsection \<open>Settings and the module-level lists\<close>

record settings =
  SHOP_USE_VARIATIONS :: bool
  SHOP_USE_RELATED_PRODUCTS :: bool
  SHOP_USE_UPSELL_PRODUCTS :: bool

text \<open>\<^verbatim>\<open>xs.insert(i, x)\<close> and \<^verbatim>\<open>xs[i:i] = ys\<close> for \<open>i \<ge> 0\<close>: past the end both append.\<close>

definition list_insert :: "nat \<Rightarrow> 'a \<Rightarrow> 'a list \<Rightarrow> 'a list" where
  "list_insert i x xs = take i xs @ [x] @ drop i xs"

definition slice_assign :: "nat \<Rightarrow> 'a list \<Rightarrow> 'a list \<Rightarrow> 'a list" where
  "slice_assign i ys xs = take i xs @ ys @ drop i xs"

text \<open>
  \<^verbatim>\<open>
  variation_fields = ["sku", "num_in_stock", "unit_price", "currency",
                      "sale_price", "sale_from", "sale_to", "image"]
  if settings.SHOP_USE_VARIATIONS:
      variation_fields.insert(1, "default")
      variations_max_num = None
      variations_extra = 0
  else:
      variations_max_num = 1
      variations_extra = 1
  \<close>
\<close>

definition variation_fields :: "settings \<Rightarrow> string list" where
  "variation_fields s =
     (let fields = [''sku'', ''num_in_stock'', ''unit_price'', ''currency'',
                    ''sale_price'', ''sale_from'', ''sale_to'', ''image'']
      in if SHOP_USE_VARIATIONS s then list_insert 1 ''default'' fields else fields)"

definition variations_max_num :: "settings \<Rightarrow> nat option" where
  "variations_max_num s = (if SHOP_USE_VARIATIONS s then None else Some 1)"

definition variations_extra :: "settings \<Rightarrow> nat" where
  "variations_extra s = (if SHOP_USE_VARIATIONS s then 0 else 1)"

text \<open>The attributes of the inline class \<^verbatim>\<open>ProductVariationAdmin\<close> that the module computes.\<close>

record inline_admin =
  inline_model :: model_class
  inline_fields :: "string list"
  inline_max_num :: "nat option"
  inline_extra :: nat

definition ProductVariationAdmin :: "settings \<Rightarrow> inline_admin" where
  "ProductVariationAdmin s =
     \<lparr>inline_model = ProductVariation, inline_fields = variation_fields s,
      inline_max_num = variations_max_num s, inline_extra = variations_extra s\<rparr>"

text \<open>
  \<^verbatim>\<open>
  other_product_fields = []
  if settings.SHOP_USE_RELATED_PRODUCTS:
      other_product_fields.append("related_products")
  if settings.SHOP_USE_UPSELL_PRODUCTS:
      other_product_fields.append("upsell_products")
  \<close>
\<close>

definition other_product_fields :: "settings \<Rightarrow> string list" where
  "other_product_fields s =
     (if SHOP_USE_RELATED_PRODUCTS s then [''related_products''] else [])
     @ (if SHOP_USE_UPSELL_PRODUCTS s then [''upsell_products''] else [])"

text \<open>
  \<^verbatim>\<open>
  product_list_display = ["admin_thumb", "title", "status", "available", "admin_link"]
  product_list_editable = ["status", "available"]
  if settings.SHOP_USE_VARIATIONS:
      ...
  else:
      extra_list_fields = ["sku", "unit_price", "sale_price", "num_in_stock"]
      product_list_display[4:4] = extra_list_fields
      product_list_editable.extend(extra_list_fields)
  \<close>
\<close>

definition extra_list_fields :: "string list" where
  "extra_list_fields = [''sku'', ''unit_price'', ''sale_price'', ''num_in_stock'']"

definition product_list_display :: "settings \<Rightarrow> string list" where
  "product_list_display s =
     (let display = [''admin_thumb'', ''title'', ''status'', ''available'', ''admin_link'']
      in if SHOP_USE_VARIATIONS s then display else slice_assign 4 extra_list_fields display)"

definition product_list_editable :: "settings \<Rightarrow> string list" where
  "product_list_editable s =
     (let editable = [''status'', ''available'']
      in if SHOP_USE_VARIATIONS s then editable else editable @ extra_list_fields)"

subsection \<open>Fieldsets and the list objects they share\<close>

text \<open>
  A fieldset is the pair \<^verbatim>\<open>(title, {"fields": ..., "classes": ...})\<close>. Its \<^verbatim>\<open>"fields"\<close>
  value is either a tuple, which is immutable and kept in place, or a list object, which
  \<^verbatim>\<open>insert\<close> and \<^verbatim>\<open>extend\<close> change in place for everybody who holds a reference to it.
  List objects therefore live in a store: an address is an index into the store, and
  allocation appends. These lists are the only objects the module ever mutates after
  copying, so they are the only ones kept in the store.
\<close>

type_synonym addr = nat

type_synonym heap = "string entry list list"

datatype fields_val = FList addr | FTuple "string entry list"

record fieldset =
  fs_title :: "string option"
  fs_classes :: "string list option"
  fs_fields :: fields_val

text \<open>
  Every list reference of the fieldsets points into the store: Python has no dangling
  references, and every structure built below keeps this property.
\<close>

definition wf_fieldsets :: "heap \<Rightarrow> fieldset list \<Rightarrow> bool" where
  "wf_fieldsets h fss =
     list_all (\<lambda>fs. case fs_fields fs of FList a \<Rightarrow> a < length h | FTuple es \<Rightarrow> True) fss"

text \<open>
  The value of a fieldsets structure, as Python's \<^verbatim>\<open>==\<close> compares it: element by element,
  a list never equal to a tuple.
\<close>

datatype fields_value = ListValue "string entry list" | TupleValue "string entry list"

definition resolve_fields :: "heap \<Rightarrow> fields_val \<Rightarrow> fields_value" where
  "resolve_fields h v = (case v of FList a \<Rightarrow> ListValue (h ! a) | FTuple es \<Rightarrow> TupleValue es)"

definition resolve :: "heap \<Rightarrow> fieldset list \<Rightarrow> (string option \<times> string list option \<times> fields_value) list" where
  "resolve h fss = map (\<lambda>fs. (fs_title fs, fs_classes fs, resolve_fields h (fs_fields fs))) fss"

text \<open>
  \<^verbatim>\<open>deepcopy\<close>: every list object reached is copied to a fresh address; the memo keeps a
  list that is reached twice shared in the copy, as Python's memo dictionary does.
\<close>

fun deepcopy_memo :: "(addr \<times> addr) list \<Rightarrow> fieldset list \<Rightarrow> heap \<Rightarrow> fieldset list \<times> heap" where
  "deepcopy_memo memo [] h = ([], h)"
| "deepcopy_memo memo (fs # fss) h =
     (case fs_fields fs of
        FTuple es \<Rightarrow>
          (let (fss', h') = deepcopy_memo memo fss h in (fs # fss', h'))
      | FList a \<Rightarrow>
          (case map_of memo a of
             Some a' \<Rightarrow>
               (let (fss', h') = deepcopy_memo memo fss h
                in (fs\<lparr>fs_fields := FList a'\<rparr> # fss', h'))
           | None \<Rightarrow>
               (let a' = length h;
                    (fss', h') = deepcopy_memo ((a, a') # memo) fss (h @ [h ! a])
                in (fs\<lparr>fs_fields := FList a'\<rparr> # fss', h'))))"

definition deepcopy :: "fieldset list \<Rightarrow> heap \<Rightarrow> fieldset list \<times> heap" where
  "deepcopy fss h = deepcopy_memo [] fss h"

text \<open>
  \<^verbatim>\<open>fieldsets[0][1]["fields"].<method>(...)\<close>: \<^verbatim>\<open>IndexError\<close> on an empty sequence of
  fieldsets, \<^verbatim>\<open>AttributeError\<close> when the fields are a tuple, otherwise the list object is
  changed in place.
\<close>

definition mutate_first_fields ::
  "(string entry list \<Rightarrow> string entry list) \<Rightarrow> fieldset list \<Rightarrow> heap \<Rightarrow> exn + heap" where
  "mutate_first_fields f fss h =
     (case fss of
        [] \<Rightarrow> Inl IndexError
      | fs # _ \<Rightarrow>
          (case fs_fields fs of
             FTuple es \<Rightarrow> Inl (AttributeError ''tuple'')
           | FList a \<Rightarrow> Inr (h[a := f (h ! a)])))"

text \<open>
  \<^verbatim>\<open>
  option_fields = [f.name for f in ProductVariation.option_fields()]
  ...
  product_fieldsets = deepcopy(DisplayableAdmin.fieldsets)
  product_fieldsets[0][1]["fields"].insert(2, "available")
  product_fieldsets[0][1]["fields"].insert(3, "manufacturer")
  product_fieldsets[0][1]["fields"].extend(["content", "categories"])
  product_fieldsets = list(product_fieldsets)
  ...
  if len(other_product_fields) > 0:
      product_fieldsets.append((_("Other products"), {
          "classes": ("collapse-closed",),
          "fields": tuple(other_product_fields)}))
  ...
  if settings.SHOP_USE_VARIATIONS:
      product_fieldsets.insert(1, (_("Create new variations"),
                                   {"classes": ("create-variations",), "fields": option_fields}))
  \<close>
  The names of the option fields and the framework's \<^verbatim>\<open>DisplayableAdmin.fieldsets\<close> are
  defined outside the module and are parameters. \<^verbatim>\<open>option_fields\<close> is a list object of
  its own, and the fieldset refers to that very object.
\<close>

definition product_fieldsets ::
  "settings \<Rightarrow> string list \<Rightarrow> fieldset list \<Rightarrow> heap \<Rightarrow> exn + (fieldset list \<times> heap)" where
  "product_fieldsets s option_fields displayable h =
     (let option_fields_addr = length h;
          h0 = h @ [map Single option_fields];
          (fss, h1) = deepcopy displayable h0
      in case mutate_first_fields (list_insert 2 (Single ''available'')) fss h1 of
           Inl e \<Rightarrow> Inl e
         | Inr h2 \<Rightarrow>
      (case mutate_first_fields (list_insert 3 (Single ''manufacturer'')) fss h2 of
           Inl e \<Rightarrow> Inl e
         | Inr h3 \<Rightarrow>
      (case mutate_first_fields (\<lambda>xs. xs @ [Single ''content'', Single ''categories'']) fss h3 of
           Inl e \<Rightarrow> Inl e
         | Inr h4 \<Rightarrow>
      (let fss1 =
             (if length (other_product_fields s) > 0
              then fss @ [\<lparr>fs_title = Some ''Other products'',
                           fs_classes = Some [''collapse-closed''],
                           fs_fields = FTuple (map Single (other_product_fields s))\<rparr>]
              else fss)
       in if SHOP_USE_VARIATIONS s
          then Inr (list_insert 1 \<lparr>fs_title = Some ''Create new variations'',
                                   fs_classes = Some [''create-variations''],
                                   fs_fields = FList option_fields_addr\<rparr> fss1, h4)
          else Inr (fss1, h4)))))"

text \<open>The pieces of the resulting fieldsets, named for the statements about them.\<close>

definition product_first_fields :: "string entry list \<Rightarrow> string entry list" where
  "product_first_fields old =
     list_insert 3 (Single ''manufacturer'') (list_insert 2 (Single ''available'') old)
     @ [Single ''content'', Single ''categories'']"

definition other_products_fieldset :: "settings \<Rightarrow> fieldset list" where
  "other_products_fieldset s =
     (if other_product_fields s = [] then []
      else [\<lparr>fs_title = Some ''Other products'', fs_classes = Some [''collapse-closed''],
             fs_fields = FTuple (map Single (other_product_fields s))\<rparr>])"

definition create_variations_fieldset :: "addr \<Rightarrow> fieldset" where
  "create_variations_fieldset a =
     \<lparr>fs_title = Some ''Create new variations'', fs_classes = Some [''create-variations''],
      fs_fields = FList a\<rparr>"

subsection \<open>\<^verbatim>\<open>ProductAdmin.__init__\<close>\<close>

text \<open>
  What the constructor reads from the instance: the model the admin is registered for, the
  \<^verbatim>\<open>fieldsets\<close> attribute found on its class, \<^verbatim>\<open>self.exclude\<close> and
  \<^verbatim>\<open>self.form.Meta.exclude\<close> (absent or \<^verbatim>\<open>None\<close> when no sequence is given: the
  \<^verbatim>\<open>AttributeError\<close> or \<^verbatim>\<open>TypeError\<close> of \<^verbatim>\<open>extend\<close> is caught and nothing is added),
  and the fields of the model in their declared order.
\<close>

record model_field =
  mf_name :: string
  mf_editable :: bool

record admin_class =
  ac_model :: model_class
  ac_fieldsets :: "fieldset list"
  ac_exclude :: "string list option"
  ac_form_exclude :: "string list option"
  ac_model_fields :: "model_field list"

text \<open>
  \<^verbatim>\<open>
  check_fields = [f.name for f in Product._meta.fields]
  check_fields.append("product_ptr")
  try:
      check_fields.extend(self.exclude)
  except (AttributeError, TypeError):
      pass
  try:
      check_fields.extend(self.form.Meta.exclude)
  except (AttributeError, TypeError):
      pass
  \<close>
\<close>

definition check_fields :: "string list \<Rightarrow> admin_class \<Rightarrow> string list" where
  "check_fields product_field_names self =
     product_field_names @ [''product_ptr'']
     @ (case ac_exclude self of None \<Rightarrow> [] | Some names \<Rightarrow> names)
     @ (case ac_form_exclude self of None \<Rightarrow> [] | Some names \<Rightarrow> names)"

text \<open>
  \<^verbatim>\<open>
  for field in reversed(self.model._meta.fields):
      ...
      if field.name not in check_fields and field.editable:
          self.fieldsets[0][1]["fields"].insert(3, field.name)
  \<close>
  The loop, over the fields already reversed.
\<close>

fun insert_extra_fields ::
  "string list \<Rightarrow> fieldset list \<Rightarrow> model_field list \<Rightarrow> heap \<Rightarrow> exn + heap" where
  "insert_extra_fields check fieldsets [] h = Inr h"
| "insert_extra_fields check fieldsets (field # remaining) h =
     (if mf_name field \<notin> set check \<and> mf_editable field
      then (case mutate_first_fields (list_insert 3 (Single (mf_name field))) fieldsets h of
              Inl e \<Rightarrow> Inl e
            | Inr h' \<Rightarrow> insert_extra_fields check fieldsets remaining h')
      else insert_extra_fields check fieldsets remaining h)"

text \<open>
  \<^verbatim>\<open>
  def __init__(self, *args, **kwargs):
      super(ProductAdmin, self).__init__(*args, **kwargs)
      if (self.model is not Product and
                  self.fieldsets == ProductAdmin.fieldsets):
          self.fieldsets = deepcopy(self.fieldsets)
          for field in reversed(self.model._meta.fields):
              ...
  \<close>
  The result is the \<^verbatim>\<open>fieldsets\<close> attribute of the instance and the store.
  \<^verbatim>\<open>ProductAdmin.fieldsets\<close> and the names of \<^verbatim>\<open>Product._meta.fields\<close> are parameters.
\<close>

definition ProductAdmin_init ::
  "fieldset list \<Rightarrow> string list \<Rightarrow> admin_class \<Rightarrow> heap \<Rightarrow> exn + (fieldset list \<times> heap)" where
  "ProductAdmin_init ProductAdmin_fieldsets product_field_names self h =
     (if ac_model self \<noteq> Product
         \<and> resolve h (ac_fieldsets self) = resolve h ProductAdmin_fieldsets
      then
        (let (fieldsets, h1) = deepcopy (ac_fieldsets self) h
         in case insert_extra_fields (check_fields product_field_names self) fieldsets
                   (rev (ac_model_fields self)) h1 of
              Inl e \<Rightarrow> Inl e
            | Inr h2 \<Rightarrow> Inr (fieldsets, h2))
      else Inr (ac_fieldsets self, h))"

text \<open>The names the loop inserts, in the declared order of the model's fields.\<close>

definition extra_fields :: "string list \<Rightarrow> admin_class \<Rightarrow> string list" where
  "extra_fields product_field_names self =
     map mf_name
       (filter (\<lambda>field. mf_name field \<notin> set (check_fields product_field_names self)
                         \<and> mf_editable field)
               (ac_model_fields self))"

text \<open>One turn of the loop, as a function on the list that is changed.\<close>

definition insert_step :: "string list \<Rightarrow> string entry list \<Rightarrow> model_field \<Rightarrow> string entry list" where
  "insert_step check xs field =
     (if mf_name field \<notin> set check \<and> mf_editable field
      then list_insert 3 (Single (mf_name field)) xs else xs)"

subsection \<open>\<^verbatim>\<open>ProductAdmin.in_menu\<close> and \<^verbatim>\<open>ProductAdmin.change_view\<close>\<close>

text \<open>
  \<^verbatim>\<open>
  def in_menu(self):
      return self.model is Product
  \<close>
\<close>

definition in_menu :: "model_class \<Rightarrow> bool" where
  "in_menu model = (model = Product)"

text \<open>
  A product row as \<^verbatim>\<open>change_view\<close> sees it: the result of its method
  \<^verbatim>\<open>get_content_model()\<close>, which is \<^verbatim>\<open>None\<close> or an instance of a subclass, given by
  its class and its id.
\<close>

record content_model =
  cm_class :: model_class
  cm_id :: nat

record product_row =
  get_content_model :: "content_model option"

datatype response = HttpResponseRedirect string | TemplateResponse string

text \<open>
  \<^verbatim>\<open>
  def change_view(self, request, object_id, extra_context=None):
      if self.model is Product:
          product = get_object_or_404(Product, pk=object_id)
          content_model = product.get_content_model()
          if content_model is not None:
              change_url = admin_url(content_model.__class__, "change",
                                     content_model.id)
              return HttpResponseRedirect(change_url)
      return super(ProductAdmin, self).change_view(request, object_id,
                                                   extra_context=extra_context)
  \<close>
  \<^verbatim>\<open>object_id\<close> is the text taken from the URL. The framework's parts are parameters:
  \<open>admin_url\<close> builds the URL, \<open>super_change_view\<close> is the change view of the base class
  (it answers or raises), \<open>to_python\<close> is the conversion of the text to a primary key
  (it raises for a text that is no key, \<^verbatim>\<open>ValueError\<close> for one that is no number), and
  \<open>products\<close> is the table of products by primary key.
\<close>

text \<open>
  \<^verbatim>\<open>get_object_or_404(Product, pk=object_id)\<close>: the lookup converts the key, and an
  exception of the conversion escapes as it is; \<^verbatim>\<open>Http404\<close> is raised when the key
  converts and no row has it.
\<close>

definition get_object_or_404 ::
  "(string \<Rightarrow> exn + nat) \<Rightarrow> (nat \<Rightarrow> 'a option) \<Rightarrow> string \<Rightarrow> exn + 'a" where
  "get_object_or_404 to_python table object_id =
     (case to_python object_id of
        Inl e \<Rightarrow> Inl e
      | Inr pk \<Rightarrow> (case table pk of None \<Rightarrow> Inl Http404 | Some obj \<Rightarrow> Inr obj))"

definition change_view ::
  "(model_class \<Rightarrow> string \<Rightarrow> nat \<Rightarrow> string) \<Rightarrow> (string \<Rightarrow> exn + response) \<Rightarrow>
   (string \<Rightarrow> exn + nat) \<Rightarrow> (nat \<Rightarrow> product_row option) \<Rightarrow> model_class \<Rightarrow> string \<Rightarrow>
   exn + response" where
  "change_view admin_url super_change_view to_python products model object_id =
     (if model = Product then
        (case get_object_or_404 to_python products object_id of
           Inl e \<Rightarrow> Inl e
         | Inr product \<Rightarrow>
             (case get_content_model product of
                Some content_model \<Rightarrow>
                  Inr (HttpResponseRedirect
                         (admin_url (cm_class content_model) ''change'' (cm_id content_model)))
              | None \<Rightarrow> super_change_view object_id))
      else super_change_view object_id)"

subsection \<open>The request: \<^verbatim>\<open>request.POST\<close> and Python's string methods\<close>

text \<open>
  The submitted form is the sequence of its (name, value) pairs. The framework's
  \<^verbatim>\<open>QueryDict\<close> presents it as a dictionary of lists: iterating yields each name once,
  in the order of first appearance, \<^verbatim>\<open>getlist\<close> gives all the values of a name and
  \<^verbatim>\<open>get\<close> the last one, or \<^verbatim>\<open>None\<close> for a name that was not submitted.
\<close>

type_synonym post = "(string \<times> string) list"

fun post_keys :: "post \<Rightarrow> string list" where
  "post_keys [] = []"
| "post_keys ((k, v) # r) = k # removeAll k (post_keys r)"

definition post_getlist :: "post \<Rightarrow> string \<Rightarrow> string list" where
  "post_getlist q k = map snd (filter (\<lambda>kv. fst kv = k) q)"

definition post_get :: "post \<Rightarrow> string \<Rightarrow> string option" where
  "post_get q k = (case post_getlist q k of [] \<Rightarrow> None | v # vs \<Rightarrow> Some (last (v # vs)))"

definition startswith :: "string \<Rightarrow> string \<Rightarrow> bool" where
  "startswith s p = (take (length p) s = p)"

definition endswith :: "string \<Rightarrow> string \<Rightarrow> bool" where
  "endswith s p = (length p \<le> length s \<and> drop (length s - length p) s = p)"

text \<open>
  \<^verbatim>\<open>s.replace(old, new)\<close>: every occurrence of \<open>old\<close>, found from the left and not
  overlapping, is replaced; an empty \<open>old\<close> matches before every character and at the end.
\<close>

function replace :: "string \<Rightarrow> string \<Rightarrow> string \<Rightarrow> string" where
  "replace old new s =
     (if old = [] then new @ concat (map (\<lambda>c. c # new) s)
      else if s = [] then []
      else if take (length old) s = old then new @ replace old new (drop (length old) s)
      else hd s # replace old new (tl s))"
  by pat_completeness auto
termination
  by (relation "measure (\<lambda>(old, new, s). length s)") auto

declare replace.simps [simp del]

text \<open>\<^verbatim>\<open>dict(pairs)\<close>: a later pair with the same key replaces the value and keeps the place.\<close>

fun dict_set :: "'k \<Rightarrow> 'v \<Rightarrow> ('k \<times> 'v) list \<Rightarrow> ('k \<times> 'v) list" where
  "dict_set k v [] = [(k, v)]"
| "dict_set k v ((k', v') # r) = (if k' = k then (k, v) # r else (k', v') # dict_set k v r)"

definition dict :: "('k \<times> 'v) list \<Rightarrow> ('k \<times> 'v) list" where
  "dict pairs = foldl (\<lambda>d kv. dict_set (fst kv) (snd kv) d) [] pairs"

text \<open>
  \<^verbatim>\<open>
  options = dict([(f, request.POST.getlist(f)) for f in option_fields
                  if request.POST.getlist(f)])
  deleted_images = [request.POST.get(f.replace("-DELETE", "-id"))
                    for f in request.POST if f.startswith("images-")
      and f.endswith("-DELETE")]
  \<close>
\<close>

definition selected_options :: "string list \<Rightarrow> post \<Rightarrow> (string \<times> string list) list" where
  "selected_options option_fields q =
     dict (map (\<lambda>f. (f, post_getlist q f)) (filter (\<lambda>f. post_getlist q f \<noteq> []) option_fields))"

definition deleted_images :: "post \<Rightarrow> string option list" where
  "deleted_images q =
     map (\<lambda>f. post_get q (replace ''-DELETE'' ''-id'' f))
         (filter (\<lambda>f. startswith f ''images-'' \<and> endswith f ''-DELETE'') (post_keys q))"

subsection \<open>The rows of the product under edit\<close>

text \<open>
  The state is restricted to the product that is being saved: its variations, the ids of
  its images, its own copy of the price fields, and the log of the calls made on the
  framework and on the model layer, in the order they were made.
\<close>

record priced =
  unit_price :: "int option"
  sale_price :: "int option"
  sale_from :: "int option"
  sale_to :: "int option"

record variation =
  v_options :: "(string \<times> string) list"
  v_default :: bool
  v_image :: "string option"
  v_priced :: priced

text \<open>
  A formset carries its model and the edits the administrator submitted; the framework's
  \<^verbatim>\<open>formset.save()\<close> writes those edits to the rows of the formset's own model.
\<close>

datatype formset =
    ImageFormset "string list \<Rightarrow> string list"
  | VariationFormset "variation list \<Rightarrow> variation list"
  | OtherFormset string

fun fs_model :: "formset \<Rightarrow> model_class" where
  "fs_model (ImageFormset edits) = ProductImage"
| "fs_model (VariationFormset edits) = ProductVariation"
| "fs_model (OtherFormset name) = OtherModel name"

datatype event =
    SaveModel nat
  | SaveFormset formset
  | CreateFromOptions "(string \<times> string list) list"
  | ManageEmpty
  | SetDefaultImages "string option list"
  | CopyDefaultVariation

record shop =
  variations :: "variation list"
  images :: "string list"
  product_priced :: priced
  calls :: "event list"

text \<open>The base class's \<^verbatim>\<open>save_model\<close> and \<^verbatim>\<open>save_formset\<close>, which save the object and the formset.\<close>

definition super_save_model :: "nat \<Rightarrow> shop \<Rightarrow> shop" where
  "super_save_model obj w = w\<lparr>calls := calls w @ [SaveModel obj]\<rparr>"

fun formset_save :: "formset \<Rightarrow> shop \<Rightarrow> shop" where
  "formset_save (ImageFormset edits) w = w\<lparr>images := edits (images w)\<rparr>"
| "formset_save (VariationFormset edits) w = w\<lparr>variations := edits (variations w)\<rparr>"
| "formset_save (OtherFormset name) w = w"

definition super_save_formset :: "formset \<Rightarrow> shop \<Rightarrow> shop" where
  "super_save_formset formset w = (formset_save formset w)\<lparr>calls := calls w @ [SaveFormset formset]\<rparr>"

subsection \<open>The manager methods of the model layer\<close>

fun option_combinations :: "(string \<times> string list) list \<Rightarrow> (string \<times> string) list list" where
  "option_combinations [] = [[]]"
| "option_combinations ((f, vs) # r) =
     concat (map (\<lambda>v. map (\<lambda>c. (f, v) # c) (option_combinations r)) vs)"

definition blank_priced :: priced where
  "blank_priced = \<lparr>unit_price = None, sale_price = None, sale_from = None, sale_to = None\<rparr>"

text \<open>
  Modelled from the spec: \<^verbatim>\<open>variations.create_from_options\<close> is defined in the model
  layer, which is not part of the sources at hand. Step 2: "Using option selections
  submitted in the request, create any new variation records implied by new option
  combinations." A combination takes one value of every selected option; it is new when no
  variation has it yet. Without selections no combination is implied.
\<close>

definition create_from_options :: "(string \<times> string list) list \<Rightarrow> shop \<Rightarrow> shop" where
  "create_from_options options w =
     w\<lparr>variations := variations w @
          map (\<lambda>c. \<lparr>v_options = c, v_default = False, v_image = None, v_priced = blank_priced\<rparr>)
              (filter (\<lambda>c. c \<notin> set (map v_options (variations w)))
                      (if options = [] then [] else option_combinations options)),
       calls := calls w @ [CreateFromOptions options]\<rparr>"

text \<open>
  Modelled from the spec: \<^verbatim>\<open>variations.manage_empty\<close> is defined in the model layer,
  which is not part of the sources at hand. Step 3: "Ensure at least one variation record
  exists for the product (create a default if none exist)."
\<close>

definition manage_empty :: "shop \<Rightarrow> shop" where
  "manage_empty w =
     w\<lparr>variations :=
          (if variations w = []
           then [\<lparr>v_options = [], v_default = True, v_image = None, v_priced = blank_priced\<rparr>]
           else variations w),
       calls := calls w @ [ManageEmpty]\<rparr>"

text \<open>
  Modelled from the spec: \<^verbatim>\<open>variations.set_default_images\<close> is defined in the model
  layer, which is not part of the sources at hand. Step 4: "Remove references to any images
  the administrator marked for deletion from the variations that reference them, and assign
  a default image to any variation lacking one." The default is the first image of the
  product that is not marked for deletion, when there is one.
\<close>

definition set_default_images :: "string option list \<Rightarrow> shop \<Rightarrow> shop" where
  "set_default_images deleted_image_ids w =
     (let unreferenced =
            map (\<lambda>v. if v_image v \<noteq> None \<and> v_image v \<in> set deleted_image_ids
                      then v\<lparr>v_image := None\<rparr> else v)
                (variations w);
          candidates = filter (\<lambda>i. Some i \<notin> set deleted_image_ids) (images w)
      in w\<lparr>variations :=
             map (\<lambda>v. if v_image v = None \<and> candidates \<noteq> []
                       then v\<lparr>v_image := Some (hd candidates)\<rparr> else v)
                 unreferenced,
           calls := calls w @ [SetDefaultImages deleted_image_ids]\<rparr>)"

text \<open>
  Modelled from the spec: \<^verbatim>\<open>Product.copy_default_variation\<close> is defined in the model
  layer, which is not part of the sources at hand. Step 7: "Copy the designated default
  variation's price fields onto the parent product record for denormalized display." The
  designated default is the first variation flagged as default; with none flagged nothing
  is copied.
\<close>

definition default_variation :: "shop \<Rightarrow> variation option" where
  "default_variation w = find v_default (variations w)"

definition copy_default_variation :: "shop \<Rightarrow> shop" where
  "copy_default_variation w =
     (case default_variation w of
        None \<Rightarrow> w\<lparr>calls := calls w @ [CopyDefaultVariation]\<rparr>
      | Some v \<Rightarrow> w\<lparr>product_priced := v_priced v, calls := calls w @ [CopyDefaultVariation]\<rparr>)"

subsection \<open>\<^verbatim>\<open>ProductAdmin.save_model\<close> and \<^verbatim>\<open>ProductAdmin.save_formset\<close>\<close>

text \<open>
  The admin object keeps two attributes between the calls of one save: \<^verbatim>\<open>_product\<close>
  and \<^verbatim>\<open>_images_formset\<close>. Neither exists before it is first assigned, and reading it
  then raises \<^verbatim>\<open>AttributeError\<close>.
\<close>

record admin =
  self_model :: model_class
  self_product :: "nat option"
  self_images_formset :: "formset option"

text \<open>
  \<^verbatim>\<open>
  def save_model(self, request, obj, form, change):
      super(ProductAdmin, self).save_model(request, obj, form, change)
      self._product = obj
  \<close>
\<close>

definition save_model :: "nat \<Rightarrow> admin \<times> shop \<Rightarrow> admin \<times> shop" where
  "save_model obj st = (case st of (self, w) \<Rightarrow> (self\<lparr>self_product := Some obj\<rparr>, super_save_model obj w))"

text \<open>
  \<^verbatim>\<open>
  def save_formset(self, request, form, formset, change):
      if formset.model == ProductImage:
          self._images_formset = formset
      else:
          super(ProductAdmin, self).save_formset(request, form, formset, change)
      if formset.model == ProductVariation:
          options = ...
          deleted_images = ...
          self._product.variations.create_from_options(options)
          self._product.variations.manage_empty()
          self._product.variations.set_default_images(deleted_images)
          super(ProductAdmin, self).save_formset(request, form,
                                                 self._images_formset, change)
          self._product.variations.set_default_images(deleted_images)
          self._product.copy_default_variation()
  \<close>
\<close>

definition save_formset ::
  "string list \<Rightarrow> post \<Rightarrow> formset \<Rightarrow> admin \<times> shop \<Rightarrow> exn + admin \<times> shop" where
  "save_formset option_fields q formset st =
     (case st of (self, w) \<Rightarrow>
        (let (self1, w1) =
               (if fs_model formset = ProductImage
                then (self\<lparr>self_images_formset := Some formset\<rparr>, w)
                else (self, super_save_formset formset w))
         in if fs_model formset = ProductVariation then
              (let options = selected_options option_fields q;
                   deleted = deleted_images q
               in case self_product self1 of
                    None \<Rightarrow> Inl (AttributeError ''_product'')
                  | Some product \<Rightarrow>
                      (let w2 = create_from_options options w1;
                           w3 = manage_empty w2;
                           w4 = set_default_images deleted w3
                       in case self_images_formset self1 of
                            None \<Rightarrow> Inl (AttributeError ''_images_formset'')
                          | Some images_formset \<Rightarrow>
                              (let w5 = super_save_formset images_formset w4;
                                   w6 = set_default_images deleted w5;
                                   w7 = copy_default_variation w6
                               in Inr (self1, w7))))
            else Inr (self1, w1)))"

text \<open>
  The framework saves the object and then hands every inline formset to \<^verbatim>\<open>save_formset\<close>,
  in the order of \<^verbatim>\<open>inlines = (ProductImageAdmin, ProductVariationAdmin)\<close>.
\<close>

fun save_related ::
  "string list \<Rightarrow> post \<Rightarrow> formset list \<Rightarrow> admin \<times> shop \<Rightarrow> exn + admin \<times> shop" where
  "save_related option_fields q [] st = Inr st"
| "save_related option_fields q (formset # formsets) st =
     (case save_formset option_fields q formset st of
        Inl e \<Rightarrow> Inl e
      | Inr st' \<Rightarrow> save_related option_fields q formsets st')"

text \<open>
  The steps \<^verbatim>\<open>save_formset\<close> runs for the variations formset, composed in the order of
  the source, for the statements about them.
\<close>

definition variation_steps :: "string list \<Rightarrow> post \<Rightarrow> formset \<Rightarrow> formset \<Rightarrow> shop \<Rightarrow> shop" where
  "variation_steps option_fields q formset images_formset w =
     copy_default_variation
       (set_default_images (deleted_images q)
         (super_save_formset images_formset
           (set_default_images (deleted_images q)
             (manage_empty
               (create_from_options (selected_options option_fields q)
                 (super_save_formset formset w))))))"

section \<open>Properties\<close>

subsection \<open>\<^verbatim>\<open>address_pairs\<close>\<close>

lemma address_pairs_Nil: "address_pairs ([] :: 'a list) = []"
  by (simp add: address_pairs_def)

lemma address_pairs_one: "address_pairs [x] = [Single x]"
  by (simp add: address_pairs_def)

lemma address_pairs_step:
  "address_pairs (x # y # r) = Tuple [x, y] # address_pairs r"
proof (cases r)
  case Nil
  then show ?thesis by (simp add: address_pairs_def)
next
  case (Cons z zs)
  then show ?thesis by (simp add: address_pairs_def Let_def)
qed

lemma address_pairs_flatten: "flatten (address_pairs xs) = xs"
  by (induction xs rule: slice_step2.induct)
     (simp_all add: address_pairs_Nil address_pairs_one address_pairs_step flatten_def)

lemma address_pairs_length: "length (address_pairs xs) = (length xs + 1) div 2"
  by (induction xs rule: slice_step2.induct)
     (simp_all add: address_pairs_Nil address_pairs_one address_pairs_step)

lemma address_pairs_nth:
  "i < length xs div 2 \<Longrightarrow> address_pairs xs ! i = Tuple [xs ! (2 * i), xs ! (2 * i + 1)]"
proof (induction xs arbitrary: i rule: slice_step2.induct)
  case (3 x y r)
  then show ?case
    by (cases i) (simp_all add: address_pairs_step)
qed simp_all

lemma address_pairs_odd_last:
  "odd (length xs) \<Longrightarrow> address_pairs xs ! (length xs div 2) = Single (last xs)"
proof (induction xs rule: slice_step2.induct)
  case (3 x y r)
  then have "r \<noteq> []" by auto
  with 3 show ?case by (simp add: address_pairs_step)
qed (simp_all add: address_pairs_one)

text \<open>
  C8. For every list of fields, \<^verbatim>\<open>address_pairs\<close> returns the consecutive pairs
  \<^verbatim>\<open>(fields[0], fields[1])\<close>, \<^verbatim>\<open>(fields[2], fields[3])\<close>, ... and, for a list of odd
  length, the final element unpaired as the last entry; flattening the result gives back the
  input list, and an input of length \<open>n\<close> yields \<open>\<lceil>n / 2\<rceil>\<close> entries.
\<close>

theorem address_pairs_spec:
  "flatten (address_pairs xs) = xs
   \<and> length (address_pairs xs) = (length xs + 1) div 2
   \<and> (\<forall>i < length xs div 2. address_pairs xs ! i = Tuple [xs ! (2 * i), xs ! (2 * i + 1)])
   \<and> (odd (length xs) \<longrightarrow>
        address_pairs xs ! (length xs div 2) = Single (last xs)
        \<and> length (address_pairs xs) = length xs div 2 + 1)
   \<and> (even (length xs) \<longrightarrow> length (address_pairs xs) = length xs div 2)"
proof -
  have "odd (length xs) \<Longrightarrow> (length xs + 1) div 2 = length xs div 2 + 1"
    by presburger
  moreover have "even (length xs) \<Longrightarrow> (length xs + 1) div 2 = length xs div 2"
    by presburger
  ultimately show ?thesis
    by (simp add: address_pairs_flatten address_pairs_length address_pairs_nth
          address_pairs_odd_last)
qed

theorem address_pairs_spec_witness:
  "address_pairs [''a'', ''b'', ''c''] = [Tuple [''a'', ''b''], Single ''c'']
   \<and> flatten (address_pairs [''a'', ''b'', ''c'']) = [''a'', ''b'', ''c'']
   \<and> length (address_pairs [''a'', ''b'', ''c'']) = 2
   \<and> address_pairs [''a'', ''b'', ''c''] ! 0 = Tuple [''a'', ''b'']
   \<and> address_pairs [''a'', ''b'', ''c''] ! 1 = Single ''c''"
  using address_pairs_spec [of "[''a'', ''b'', ''c'']"]
  by (simp add: address_pairs_step address_pairs_one)

subsection \<open>Copying fieldsets\<close>

lemma deepcopy_memo_frame:
  "deepcopy_memo memo fss h = (fss', h') \<Longrightarrow> length h \<le> length h' \<and> take (length h) h' = h"
proof (induction fss arbitrary: memo h fss' h')
  case Nil
  then show ?case by simp
next
  case (Cons fs fss)
  show ?case
  proof (cases "fs_fields fs")
    case (FTuple es)
    with Cons.prems obtain r where "deepcopy_memo memo fss h = (r, h')"
      by (auto split: prod.splits)
    then show ?thesis by (rule Cons.IH)
  next
    case (FList a)
    show ?thesis
    proof (cases "map_of memo a")
      case (Some b)
      with Cons.prems FList obtain r where "deepcopy_memo memo fss h = (r, h')"
        by (auto split: prod.splits)
      then show ?thesis by (rule Cons.IH)
    next
      case None
      with Cons.prems FList obtain r
        where r: "deepcopy_memo ((a, length h) # memo) fss (h @ [h ! a]) = (r, h')"
        by (auto simp: Let_def split: prod.splits)
      from Cons.IH [OF r]
      have l: "length (h @ [h ! a]) \<le> length h'"
        and t: "take (length (h @ [h ! a])) h' = h @ [h ! a]"
        by simp_all
      have "take (length h) h' = take (length h) (take (length (h @ [h ! a])) h')"
        by (simp add: min_def)
      also have "\<dots> = h" unfolding t by simp
      finally show ?thesis using l by simp
    qed
  qed
qed

lemma deepcopy_memo_fresh:
  "deepcopy_memo memo fss h = (fss', h') \<Longrightarrow> fs' \<in> set fss' \<Longrightarrow> fs_fields fs' = FList a' \<Longrightarrow>
     a' \<in> snd ` set memo \<or> (length h \<le> a' \<and> a' < length h')"
proof (induction fss arbitrary: memo h fss' h')
  case Nil
  then show ?case by simp
next
  case (Cons fs fss)
  show ?case
  proof (cases "fs_fields fs")
    case (FTuple es)
    with Cons.prems(1) obtain r where r: "deepcopy_memo memo fss h = (r, h')" and f: "fss' = fs # r"
      by (auto split: prod.splits)
    from Cons.prems(2,3) f FTuple have "fs' \<in> set r" by auto
    from Cons.IH [OF r this Cons.prems(3)] show ?thesis .
  next
    case (FList a)
    show ?thesis
    proof (cases "map_of memo a")
      case (Some b)
      then have b: "b \<in> snd ` set memo" by (metis map_of_SomeD snd_conv image_eqI)
      from Cons.prems(1) FList Some obtain r
        where r: "deepcopy_memo memo fss h = (r, h')" and f: "fss' = fs\<lparr>fs_fields := FList b\<rparr> # r"
        by (auto split: prod.splits)
      show ?thesis
      proof (cases "fs' \<in> set r")
        case True
        from Cons.IH [OF r this Cons.prems(3)] show ?thesis .
      next
        case False
        with Cons.prems(2,3) f have "a' = b" by auto
        with b show ?thesis by simp
      qed
    next
      case None
      with Cons.prems(1) FList obtain r
        where r: "deepcopy_memo ((a, length h) # memo) fss (h @ [h ! a]) = (r, h')"
          and f: "fss' = fs\<lparr>fs_fields := FList (length h)\<rparr> # r"
        by (auto simp: Let_def split: prod.splits)
      from deepcopy_memo_frame [OF r] have len: "length h < length h'" by simp
      show ?thesis
      proof (cases "fs' \<in> set r")
        case True
        from Cons.IH [OF r this Cons.prems(3)] len
        show ?thesis by auto
      next
        case False
        with Cons.prems(2,3) f have "a' = length h" by auto
        with len show ?thesis by simp
      qed
    qed
  qed
qed


lemma deepcopy_memo_length:
  "deepcopy_memo memo fss h = (fss', h') \<Longrightarrow> length fss' = length fss"
  by (induction fss arbitrary: memo h fss' h')
     (auto simp: Let_def split: prod.splits fields_val.splits option.splits)

lemma deepcopy_first_list:
  assumes "deepcopy (fs # fss) h = (fss', h')" and "fs_fields fs = FList a"
  shows "\<exists>r. fss' = fs\<lparr>fs_fields := FList (length h)\<rparr> # r \<and> length r = length fss
             \<and> length h < length h' \<and> h' ! length h = h ! a \<and> take (length h) h' = h"
proof -
  from assms obtain r
    where r: "deepcopy_memo [(a, length h)] fss (h @ [h ! a]) = (r, h')"
      and f: "fss' = fs\<lparr>fs_fields := FList (length h)\<rparr> # r"
    by (auto simp: deepcopy_def Let_def split: prod.splits)
  from deepcopy_memo_frame [OF r]
  have l: "length (h @ [h ! a]) \<le> length h'"
    and t: "take (length (h @ [h ! a])) h' = h @ [h ! a]"
    by simp_all
  have "h' ! length h = take (length (h @ [h ! a])) h' ! length h" by simp
  also have "\<dots> = h ! a" unfolding t by simp
  finally have c: "h' ! length h = h ! a" .
  have "take (length h) h' = take (length h) (take (length (h @ [h ! a])) h')"
    by (simp add: min_def)
  also have "\<dots> = h" unfolding t by simp
  finally have "take (length h) h' = h" .
  moreover have "length r = length fss" using r deepcopy_memo_length by blast
  ultimately show ?thesis using f l c by simp
qed


subsection \<open>The configuration selected by \<^verbatim>\<open>SHOP_USE_VARIATIONS\<close>\<close>

lemma product_fieldsets_result:
  assumes "fs_fields d = FList a"
  shows "\<exists>r h1. deepcopy (d # ds) (h @ [map Single optf]) = (d\<lparr>fs_fields := FList (Suc (length h))\<rparr> # r, h1)
           \<and> Suc (length h) < length h1
           \<and> product_fieldsets s optf (d # ds) h =
               Inr (d\<lparr>fs_fields := FList (Suc (length h))\<rparr>
                      # (if SHOP_USE_VARIATIONS s then [create_variations_fieldset (length h)] else [])
                      @ r @ other_products_fieldset s,
                    h1[Suc (length h) := product_first_fields ((h @ [map Single optf]) ! a)])"
proof -
  let ?h0 = "h @ [map Single optf]"
  obtain fss h1 where dc: "deepcopy (d # ds) ?h0 = (fss, h1)"
    by (cases "deepcopy (d # ds) ?h0")
  from deepcopy_first_list [OF dc assms] obtain r
    where f: "fss = d\<lparr>fs_fields := FList (Suc (length h))\<rparr> # r"
      and l: "Suc (length h) < length h1"
      and c: "h1 ! Suc (length h) = ?h0 ! a"
    by auto
  have "product_fieldsets s optf (d # ds) h =
          Inr (d\<lparr>fs_fields := FList (Suc (length h))\<rparr>
                 # (if SHOP_USE_VARIATIONS s then [create_variations_fieldset (length h)] else [])
                 @ r @ other_products_fieldset s,
               h1[Suc (length h) := product_first_fields (?h0 ! a)])"
    using dc f l c
    by (simp add: product_fieldsets_def mutate_first_fields_def product_first_fields_def
          other_products_fieldset_def create_variations_fieldset_def list_insert_def Let_def)
  with dc f l show ?thesis by blast
qed


lemma deepcopy_fresh:
  "deepcopy fss h = (fss', h') \<Longrightarrow> fs' \<in> set fss' \<Longrightarrow> fs_fields fs' = FList a' \<Longrightarrow>
     length h \<le> a' \<and> a' < length h'"
  using deepcopy_memo_fresh [of "[]" fss h fss' h' fs' a'] by (simp add: deepcopy_def)

text \<open>
  C5. The flag \<^verbatim>\<open>SHOP_USE_VARIATIONS\<close> selects the configuration. When it is set, the
  product fieldsets get a section "Create new variations" (in second position) whose fields
  are the option fields, the variation inline has the field \<^verbatim>\<open>default\<close> and no maximum
  row count, and the change list keeps its five columns. When it is not set, \<^verbatim>\<open>sku\<close>,
  \<^verbatim>\<open>unit_price\<close>, \<^verbatim>\<open>sale_price\<close> and \<^verbatim>\<open>num_in_stock\<close> are added to the change-list
  display and to its editable fields, the variation inline has \<^verbatim>\<open>max_num = 1\<close>,
  \<^verbatim>\<open>extra = 1\<close> and no field \<^verbatim>\<open>default\<close>, and no fieldset refers to the option fields.
  The framework's \<^verbatim>\<open>DisplayableAdmin.fieldsets\<close> is any non-empty sequence whose first
  fieldset keeps its fields in a list, as the in-place \<^verbatim>\<open>insert\<close> requires.
\<close>

theorem admin_configuration_by_flag:
  assumes "fs_fields d = FList a"
  shows "\<exists>pf h'. product_fieldsets s option_fields (d # ds) h = Inr (pf, h')
     \<and> (SHOP_USE_VARIATIONS s \<longrightarrow>
           pf ! 1 = \<lparr>fs_title = Some ''Create new variations'',
                     fs_classes = Some [''create-variations''],
                     fs_fields = FList (length h)\<rparr>
         \<and> resolve_fields h' (FList (length h)) = ListValue (map Single option_fields)
         \<and> inline_fields (ProductVariationAdmin s) =
             [''sku'', ''default'', ''num_in_stock'', ''unit_price'', ''currency'',
              ''sale_price'', ''sale_from'', ''sale_to'', ''image'']
         \<and> inline_max_num (ProductVariationAdmin s) = None
         \<and> inline_extra (ProductVariationAdmin s) = 0
         \<and> product_list_display s =
             [''admin_thumb'', ''title'', ''status'', ''available'', ''admin_link'']
         \<and> product_list_editable s = [''status'', ''available''])
     \<and> (\<not> SHOP_USE_VARIATIONS s \<longrightarrow>
           product_list_display s =
             [''admin_thumb'', ''title'', ''status'', ''available'',
              ''sku'', ''unit_price'', ''sale_price'', ''num_in_stock'', ''admin_link'']
         \<and> product_list_editable s =
             [''status'', ''available'', ''sku'', ''unit_price'', ''sale_price'', ''num_in_stock'']
         \<and> inline_fields (ProductVariationAdmin s) =
             [''sku'', ''num_in_stock'', ''unit_price'', ''currency'',
              ''sale_price'', ''sale_from'', ''sale_to'', ''image'']
         \<and> ''default'' \<notin> set (inline_fields (ProductVariationAdmin s))
         \<and> inline_max_num (ProductVariationAdmin s) = Some 1
         \<and> inline_extra (ProductVariationAdmin s) = 1
         \<and> (\<forall>fs \<in> set pf. fs_fields fs \<noteq> FList (length h)))"
proof -
  let ?h0 = "h @ [map Single option_fields]"
  from product_fieldsets_result [OF assms, of ds h option_fields s] obtain r h1
    where dc: "deepcopy (d # ds) ?h0 = (d\<lparr>fs_fields := FList (Suc (length h))\<rparr> # r, h1)"
      and l: "Suc (length h) < length h1"
      and pf: "product_fieldsets s option_fields (d # ds) h =
               Inr (d\<lparr>fs_fields := FList (Suc (length h))\<rparr>
                      # (if SHOP_USE_VARIATIONS s then [create_variations_fieldset (length h)] else [])
                      @ r @ other_products_fieldset s,
                    h1[Suc (length h) := product_first_fields (?h0 ! a)])"
    by blast
  let ?pf = "d\<lparr>fs_fields := FList (Suc (length h))\<rparr>
               # (if SHOP_USE_VARIATIONS s then [create_variations_fieldset (length h)] else [])
               @ r @ other_products_fieldset s"
  let ?h' = "h1[Suc (length h) := product_first_fields (?h0 ! a)]"
  from deepcopy_first_list [OF dc assms] have t: "take (length ?h0) h1 = ?h0"
    by blast
  have "h1 ! length h = take (length ?h0) h1 ! length h" by simp
  also have "\<dots> = map Single option_fields" unfolding t by simp
  finally have opt: "?h' ! length h = map Single option_fields" by simp
  have on: "SHOP_USE_VARIATIONS s \<Longrightarrow> ?pf ! 1 = create_variations_fieldset (length h)"
    by simp
  have off: "\<not> SHOP_USE_VARIATIONS s \<Longrightarrow> \<forall>fs \<in> set ?pf. fs_fields fs \<noteq> FList (length h)"
  proof
    fix fs
    assume "\<not> SHOP_USE_VARIATIONS s" and "fs \<in> set ?pf"
    then consider "fs = d\<lparr>fs_fields := FList (Suc (length h))\<rparr>" | "fs \<in> set r"
      | "fs \<in> set (other_products_fieldset s)"
      by auto
    then show "fs_fields fs \<noteq> FList (length h)"
    proof cases
      case 1
      then show ?thesis by simp
    next
      case 2
      show ?thesis
      proof
        assume "fs_fields fs = FList (length h)"
        with deepcopy_fresh [OF dc, of fs "length h"] 2 show False by simp
      qed
    next
      case 3
      then show ?thesis by (auto simp: other_products_fieldset_def split: if_splits)
    qed
  qed
  have cfg_on: "SHOP_USE_VARIATIONS s \<Longrightarrow>
      inline_fields (ProductVariationAdmin s) =
             [''sku'', ''default'', ''num_in_stock'', ''unit_price'', ''currency'',
              ''sale_price'', ''sale_from'', ''sale_to'', ''image'']
      \<and> inline_max_num (ProductVariationAdmin s) = None
      \<and> inline_extra (ProductVariationAdmin s) = 0
      \<and> product_list_display s =
             [''admin_thumb'', ''title'', ''status'', ''available'', ''admin_link'']
      \<and> product_list_editable s = [''status'', ''available'']"
    by (simp add: ProductVariationAdmin_def variation_fields_def variations_max_num_def
          variations_extra_def product_list_display_def product_list_editable_def list_insert_def)
  have cfg_off: "\<not> SHOP_USE_VARIATIONS s \<Longrightarrow>
      product_list_display s =
             [''admin_thumb'', ''title'', ''status'', ''available'',
              ''sku'', ''unit_price'', ''sale_price'', ''num_in_stock'', ''admin_link'']
      \<and> product_list_editable s =
             [''status'', ''available'', ''sku'', ''unit_price'', ''sale_price'', ''num_in_stock'']
      \<and> inline_fields (ProductVariationAdmin s) =
             [''sku'', ''num_in_stock'', ''unit_price'', ''currency'',
              ''sale_price'', ''sale_from'', ''sale_to'', ''image'']
      \<and> ''default'' \<notin> set (inline_fields (ProductVariationAdmin s))
      \<and> inline_max_num (ProductVariationAdmin s) = Some 1
      \<and> inline_extra (ProductVariationAdmin s) = 1"
    by (simp add: ProductVariationAdmin_def variation_fields_def variations_max_num_def
          variations_extra_def product_list_display_def product_list_editable_def
          slice_assign_def extra_list_fields_def)
  show ?thesis
    apply (rule exI [of _ ?pf], rule exI [of _ ?h'])
    using pf opt on off cfg_on cfg_off
    by (simp add: resolve_fields_def create_variations_fieldset_def)
qed



theorem admin_configuration_by_flag_witness:
  "fs_fields \<lparr>fs_title = None, fs_classes = None, fs_fields = FList 0\<rparr> = FList 0
   \<and> (\<exists>pf h'. product_fieldsets
          \<lparr>SHOP_USE_VARIATIONS = True, SHOP_USE_RELATED_PRODUCTS = True,
           SHOP_USE_UPSELL_PRODUCTS = False\<rparr>
          [''option1'', ''option2'']
          [\<lparr>fs_title = None, fs_classes = None, fs_fields = FList 0\<rparr>,
           \<lparr>fs_title = Some ''Meta data'', fs_classes = Some [''collapse-closed''],
            fs_fields = FList 1\<rparr>]
          [[Single ''title'', Single ''status'', Tuple [''publish_date'', ''expiry_date'']],
           [Single ''_meta_title'', Single ''slug'']] = Inr (pf, h')
        \<and> pf ! 1 = \<lparr>fs_title = Some ''Create new variations'',
                     fs_classes = Some [''create-variations''], fs_fields = FList 2\<rparr>
        \<and> resolve_fields h' (FList 2) = ListValue [Single ''option1'', Single ''option2''])
   \<and> (\<exists>pf h'. product_fieldsets
          \<lparr>SHOP_USE_VARIATIONS = False, SHOP_USE_RELATED_PRODUCTS = True,
           SHOP_USE_UPSELL_PRODUCTS = False\<rparr>
          [''option1'', ''option2'']
          [\<lparr>fs_title = None, fs_classes = None, fs_fields = FList 0\<rparr>,
           \<lparr>fs_title = Some ''Meta data'', fs_classes = Some [''collapse-closed''],
            fs_fields = FList 1\<rparr>]
          [[Single ''title'', Single ''status'', Tuple [''publish_date'', ''expiry_date'']],
           [Single ''_meta_title'', Single ''slug'']] = Inr (pf, h')
        \<and> (\<forall>fs \<in> set pf. fs_fields fs \<noteq> FList 2))"
  using
    admin_configuration_by_flag [of "\<lparr>fs_title = None, fs_classes = None, fs_fields = FList 0\<rparr>" 0
      "\<lparr>SHOP_USE_VARIATIONS = True, SHOP_USE_RELATED_PRODUCTS = True,
        SHOP_USE_UPSELL_PRODUCTS = False\<rparr>"
      "[''option1'', ''option2'']"
      "[\<lparr>fs_title = Some ''Meta data'', fs_classes = Some [''collapse-closed''],
         fs_fields = FList 1\<rparr>]"
      "[[Single ''title'', Single ''status'', Tuple [''publish_date'', ''expiry_date'']],
        [Single ''_meta_title'', Single ''slug'']]"]
    admin_configuration_by_flag [of "\<lparr>fs_title = None, fs_classes = None, fs_fields = FList 0\<rparr>" 0
      "\<lparr>SHOP_USE_VARIATIONS = False, SHOP_USE_RELATED_PRODUCTS = True,
        SHOP_USE_UPSELL_PRODUCTS = False\<rparr>"
      "[''option1'', ''option2'']"
      "[\<lparr>fs_title = Some ''Meta data'', fs_classes = Some [''collapse-closed''],
         fs_fields = FList 1\<rparr>]"
      "[[Single ''title'', Single ''status'', Tuple [''publish_date'', ''expiry_date'']],
        [Single ''_meta_title'', Single ''slug'']]"]
  by (simp add: numeral_2_eq_2) blast

subsection \<open>The change view\<close>

text \<open>
  C10. On the admin registered for \<^verbatim>\<open>Product\<close>, the change view of a product whose
  \<^verbatim>\<open>get_content_model()\<close> is a subclass instance answers with a redirect to the change
  URL of that instance in its own admin, and the base change view is not run. An admin
  registered for any other model never takes that branch: its change view is the base
  class's, and \<^verbatim>\<open>in_menu()\<close> is false for it, which hides it from the menu.
\<close>

theorem change_view_redirects_to_subclass:
  "(model = Product \<and> to_python object_id = Inr pk \<and> products pk = Some product
      \<and> get_content_model product = Some content_model \<longrightarrow>
        change_view admin_url super_change_view to_python products model object_id =
          Inr (HttpResponseRedirect
                 (admin_url (cm_class content_model) ''change'' (cm_id content_model))))
   \<and> (model \<noteq> Product \<longrightarrow>
        change_view admin_url super_change_view to_python products model object_id =
          super_change_view object_id
        \<and> \<not> in_menu model)
   \<and> in_menu Product"
  by (simp add: change_view_def get_object_or_404_def in_menu_def)

theorem change_view_redirects_to_subclass_witness:
  "change_view (\<lambda>cls action pk. ''/admin/shop/producttopka/7/'')
       (\<lambda>object_id. Inr (TemplateResponse ''change_form.html''))
       (\<lambda>text. if text = ''3'' then Inr 3 else Inl ValueError)
       (Map.empty(3 \<mapsto> \<lparr>get_content_model = Some \<lparr>cm_class = OtherModel ''ProductTopka'', cm_id = 7\<rparr>\<rparr>))
       Product ''3''
     = Inr (HttpResponseRedirect ''/admin/shop/producttopka/7/'')
   \<and> change_view (\<lambda>cls action pk. ''/admin/shop/producttopka/7/'')
       (\<lambda>object_id. Inr (TemplateResponse ''change_form.html''))
       (\<lambda>text. if text = ''3'' then Inr 3 else Inl ValueError)
       (Map.empty(3 \<mapsto> \<lparr>get_content_model = Some \<lparr>cm_class = OtherModel ''ProductTopka'', cm_id = 7\<rparr>\<rparr>))
       (OtherModel ''ProductTopka'') ''3''
     = Inr (TemplateResponse ''change_form.html'')
   \<and> \<not> in_menu (OtherModel ''ProductTopka'')"
proof -
  let ?admin_url = "\<lambda>(cls :: model_class) (action :: string) (pk :: nat). ''/admin/shop/producttopka/7/''"
  let ?super = "\<lambda>object_id :: string. (Inr (TemplateResponse ''change_form.html'') :: exn + response)"
  let ?to_python = "\<lambda>text. if text = ''3'' then Inr (3 :: nat) else (Inl ValueError :: exn + nat)"
  let ?cm = "\<lparr>cm_class = OtherModel ''ProductTopka'', cm_id = 7\<rparr>"
  let ?products = "Map.empty(3 \<mapsto> \<lparr>get_content_model = Some ?cm\<rparr>)"
  note on_product = change_view_redirects_to_subclass
    [where model = Product and to_python = ?to_python and object_id = "''3''" and pk = 3
       and products = ?products and product = "\<lparr>get_content_model = Some ?cm\<rparr>"
       and content_model = ?cm and admin_url = ?admin_url and super_change_view = ?super]
  note on_subclass = change_view_redirects_to_subclass
    [where model = "OtherModel ''ProductTopka''" and to_python = ?to_python
       and object_id = "''3''" and pk = 3
       and products = ?products and product = "\<lparr>get_content_model = Some ?cm\<rparr>"
       and content_model = ?cm and admin_url = ?admin_url and super_change_view = ?super]
  from on_product on_subclass show ?thesis by simp
qed

subsection \<open>Saving the inline formsets\<close>

lemma calls_ops [simp]:
  "calls (super_save_formset fs w) = calls w @ [SaveFormset fs]"
  "calls (create_from_options opts w) = calls w @ [CreateFromOptions opts]"
  "calls (manage_empty w) = calls w @ [ManageEmpty]"
  "calls (set_default_images d w) = calls w @ [SetDefaultImages d]"
  "calls (copy_default_variation w) = calls w @ [CopyDefaultVariation]"
  "calls (super_save_model obj w) = calls w @ [SaveModel obj]"
  by (simp_all add: super_save_formset_def create_from_options_def manage_empty_def
        set_default_images_def copy_default_variation_def super_save_model_def Let_def
        split: option.splits)

lemma save_formset_images:
  "fs_model formset = ProductImage \<Longrightarrow>
     save_formset option_fields q formset (self, w) = Inr (self\<lparr>self_images_formset := Some formset\<rparr>, w)"
  by (simp add: save_formset_def)

lemma save_formset_variations:
  "fs_model formset = ProductVariation \<Longrightarrow> self_product self = Some product \<Longrightarrow>
   self_images_formset self = Some images_formset \<Longrightarrow>
     save_formset option_fields q formset (self, w) =
       Inr (self, variation_steps option_fields q formset images_formset w)"
  by (simp add: save_formset_def variation_steps_def Let_def)

lemma save_formset_other:
  "fs_model formset \<noteq> ProductImage \<Longrightarrow> fs_model formset \<noteq> ProductVariation \<Longrightarrow>
     save_formset option_fields q formset (self, w) = Inr (self, super_save_formset formset w)"
  by (simp add: save_formset_def)

lemma variation_steps_calls:
  "calls (variation_steps option_fields q formset images_formset w) =
     calls w @ [SaveFormset formset, CreateFromOptions (selected_options option_fields q),
                ManageEmpty, SetDefaultImages (deleted_images q), SaveFormset images_formset,
                SetDefaultImages (deleted_images q), CopyDefaultVariation]"
  by (simp add: variation_steps_def)

lemma product_save:
  "fs_model images_formset = ProductImage \<Longrightarrow> fs_model formset = ProductVariation \<Longrightarrow>
   save_related option_fields q [images_formset, formset] (save_model obj (self, w)) =
     Inr (self\<lparr>self_product := Some obj, self_images_formset := Some images_formset\<rparr>,
          variation_steps option_fields q formset images_formset (super_save_model obj w))"
  by (simp add: save_model_def save_formset_images save_formset_variations)


lemma variation_steps_nonempty:
  assumes "fs_model images_formset = ProductImage"
  shows "variations (variation_steps option_fields q formset images_formset w) \<noteq> []"
proof -
  have a: "\<And>w. variations (manage_empty w) \<noteq> []" by (simp add: manage_empty_def)
  have b: "\<And>d w. variations w \<noteq> [] \<Longrightarrow> variations (set_default_images d w) \<noteq> []"
    by (simp add: set_default_images_def Let_def)
  have c: "\<And>w. variations (super_save_formset images_formset w) = variations w"
    using assms by (cases images_formset) (simp_all add: super_save_formset_def)
  have d: "\<And>w. variations (copy_default_variation w) = variations w"
    by (simp add: copy_default_variation_def split: option.splits)
  show ?thesis
    unfolding variation_steps_def by (simp add: a b c d)
qed

lemma copy_default_variation_priced:
  "default_variation (copy_default_variation w) = default_variation w
   \<and> (\<forall>v. default_variation w = Some v \<longrightarrow> product_priced (copy_default_variation w) = v_priced v)"
  by (simp add: copy_default_variation_def default_variation_def split: option.splits)

lemma map_of_dict_set: "map_of (dict_set k v d) = (map_of d)(k \<mapsto> v)"
  by (induction d) (auto simp: fun_eq_iff)

lemma map_of_foldl_dict_set:
  "map_of (foldl (\<lambda>d kv. dict_set (fst kv) (snd kv) d) d pairs) = map_of d ++ map_of (rev pairs)"
proof (induction pairs arbitrary: d)
  case Nil
  then show ?case by simp
next
  case (Cons p pairs)
  have "map_of (rev pairs @ [p]) = map_of [p] ++ map_of (rev pairs)"
    by (simp only: map_of_append)
  then show ?case
    by (simp add: Cons map_of_dict_set map_add_assoc [symmetric] del: map_of_append)
       (simp add: map_add_def fun_eq_iff split: option.splits)
qed

lemma map_of_dict: "map_of (dict pairs) = map_of (rev pairs)"
  by (simp add: dict_def map_of_foldl_dict_set)

lemma map_of_rev_graph:
  "map_of (rev (map (\<lambda>f. (f, g f)) xs)) k = (if k \<in> set xs then Some (g k) else None)"
  by (induction xs) (auto simp: map_add_def split: option.splits)

lemma selected_options_lookup:
  "map_of (selected_options option_fields q) f =
     (if f \<in> set option_fields \<and> post_getlist q f \<noteq> [] then Some (post_getlist q f) else None)"
  by (simp add: selected_options_def map_of_dict map_of_rev_graph)

lemma set_post_keys: "set (post_keys q) = fst ` set q"
  by (induction q rule: post_keys.induct) auto

lemma replace_Nil: "old \<noteq> [] \<Longrightarrow> replace old new [] = []"
  by (subst replace.simps) simp

lemma replace_hit: "old \<noteq> [] \<Longrightarrow> replace old new (old @ s) = new @ replace old new s"
  by (subst replace.simps) simp

lemma replace_skip:
  "old \<noteq> [] \<Longrightarrow> take (length old) (c # s) \<noteq> old \<Longrightarrow> replace old new (c # s) = c # replace old new s"
  by (subst replace.simps) simp

lemma replace_DELETE_other:
  "c \<noteq> CHR ''-'' \<Longrightarrow> replace ''-DELETE'' ''-id'' (c # s) = c # replace ''-DELETE'' ''-id'' s"
  by (rule replace_skip) auto

lemma replace_DELETE_suffix:
  "CHR ''-'' \<notin> set n \<Longrightarrow> replace ''-DELETE'' ''-id'' (n @ ''-DELETE'') = n @ ''-id''"
proof (induction n)
  case Nil
  have "replace ''-DELETE'' ''-id'' (''-DELETE'' @ []) = ''-id'' @ replace ''-DELETE'' ''-id'' []"
    by (rule replace_hit) simp
  then show ?case by (simp add: replace_Nil)
next
  case (Cons c n)
  then have "c \<noteq> CHR ''-''" and "CHR ''-'' \<notin> set n" by auto
  with Cons.IH show ?case by (simp add: replace_DELETE_other)
qed

lemma replace_DELETE_row:
  assumes "CHR ''-'' \<notin> set n" and "CHR ''D'' \<notin> set n"
  shows "replace ''-DELETE'' ''-id'' (''images-'' @ n @ ''-DELETE'') = ''images-'' @ n @ ''-id''"
proof -
  have "take (length ''-DELETE'') (CHR ''-'' # n @ ''-DELETE'') \<noteq> ''-DELETE''"
    using assms(2) by (cases n) auto
  then have "replace ''-DELETE'' ''-id'' (CHR ''-'' # n @ ''-DELETE'')
               = CHR ''-'' # replace ''-DELETE'' ''-id'' (n @ ''-DELETE'')"
    by (intro replace_skip) simp_all
  then show ?thesis
    using assms(1) by (simp add: replace_DELETE_other replace_DELETE_suffix)
qed

lemma row_key_matches:
  "startswith (''images-'' @ n @ ''-DELETE'') ''images-'' \<and> endswith (''images-'' @ n @ ''-DELETE'') ''-DELETE''"
  by (simp add: startswith_def endswith_def)

text \<open>
  C1. When \<^verbatim>\<open>save_formset\<close> is called with the variations formset, the first thing done
  is the save of that formset; next \<^verbatim>\<open>create_from_options\<close> is called with the option
  selections of the request (for every option field with a non-empty list of submitted
  values, that list), then \<^verbatim>\<open>manage_empty\<close>. Nothing is called before the save of the
  variations formset.
\<close>

theorem save_formset_variations_order:
  assumes "fs_model formset = ProductVariation"
    and "self_product self = Some product"
    and "self_images_formset self = Some images_formset"
  shows "\<exists>self' w' rest.
           save_formset option_fields q formset (self, w) = Inr (self', w')
         \<and> calls w' = calls w @ [SaveFormset formset,
                                  CreateFromOptions (selected_options option_fields q),
                                  ManageEmpty] @ rest
         \<and> (\<forall>f. map_of (selected_options option_fields q) f =
                  (if f \<in> set option_fields \<and> post_getlist q f \<noteq> []
                   then Some (post_getlist q f) else None))"
  using save_formset_variations [OF assms, of option_fields q w]
  by (simp add: variation_steps_calls selected_options_lookup)

theorem save_formset_variations_order_witness:
  "fs_model (VariationFormset (\<lambda>vs. vs)) = ProductVariation
   \<and> self_product \<lparr>self_model = Product, self_product = Some 1,
                    self_images_formset = Some (ImageFormset (\<lambda>is. is))\<rparr> = Some 1
   \<and> self_images_formset \<lparr>self_model = Product, self_product = Some 1,
                           self_images_formset = Some (ImageFormset (\<lambda>is. is))\<rparr>
       = Some (ImageFormset (\<lambda>is. is))
   \<and> (\<exists>self' w' rest.
         save_formset [''option1'', ''option2''] [(''option1'', ''red''), (''option1'', ''blue'')]
           (VariationFormset (\<lambda>vs. vs))
           (\<lparr>self_model = Product, self_product = Some 1,
             self_images_formset = Some (ImageFormset (\<lambda>is. is))\<rparr>,
            \<lparr>variations = [], images = [], product_priced = blank_priced, calls = []\<rparr>)
           = Inr (self', w')
       \<and> calls w' = [SaveFormset (VariationFormset (\<lambda>vs. vs)),
                      CreateFromOptions [(''option1'', [''red'', ''blue''])],
                      ManageEmpty] @ rest)"
proof -
  have sel: "selected_options [''option1'', ''option2''] [(''option1'', ''red''), (''option1'', ''blue'')]
               = [(''option1'', [''red'', ''blue''])]"
    by (simp add: selected_options_def post_getlist_def dict_def)
  show ?thesis
    using save_formset_variations_order [of "VariationFormset (\<lambda>vs. vs)"
        "\<lparr>self_model = Product, self_product = Some 1,
          self_images_formset = Some (ImageFormset (\<lambda>is. is))\<rparr>" 1 "ImageFormset (\<lambda>is. is)"
        "[''option1'', ''option2'']" "[(''option1'', ''red''), (''option1'', ''blue'')]"
        "\<lparr>variations = [], images = [], product_priced = blank_priced, calls = []\<rparr>"]
    by (simp add: sel) blast
qed

text \<open>
  C2. The images formset is not saved when \<^verbatim>\<open>save_formset\<close> receives it: that call only
  stores it on the admin object and leaves every row and the call log as they were. In a
  product save, where the framework saves the object and then hands over the images formset
  and the variations formset in this order, the stored formset is saved exactly once, during
  the call for the variations formset: after the save of the variations formset and after
  the first \<^verbatim>\<open>set_default_images\<close>.
\<close>

theorem images_formset_saved_once_after_variations:
  assumes "fs_model images_formset = ProductImage"
    and "fs_model formset = ProductVariation"
  shows "save_formset option_fields q images_formset (self, w) =
           Inr (self\<lparr>self_images_formset := Some images_formset\<rparr>, w)
       \<and> (\<exists>self' w'.
             save_related option_fields q [images_formset, formset] (save_model obj (self, w))
               = Inr (self', w')
           \<and> calls w' = calls w @
                [SaveModel obj,
                 SaveFormset formset,
                 CreateFromOptions (selected_options option_fields q),
                 ManageEmpty,
                 SetDefaultImages (deleted_images q),
                 SaveFormset images_formset,
                 SetDefaultImages (deleted_images q),
                 CopyDefaultVariation]
           \<and> count_list (calls w') (SaveFormset images_formset)
               = count_list (calls w) (SaveFormset images_formset) + 1)"
proof -
  let ?self' = "self\<lparr>self_product := Some obj, self_images_formset := Some images_formset\<rparr>"
  let ?w' = "variation_steps option_fields q formset images_formset (super_save_model obj w)"
  from assms have ne: "formset \<noteq> images_formset" by auto
  have ps: "save_related option_fields q [images_formset, formset] (save_model obj (self, w))
              = Inr (?self', ?w')"
    by (rule product_save [OF assms])
  have c: "calls ?w' = calls w @
                [SaveModel obj,
                 SaveFormset formset,
                 CreateFromOptions (selected_options option_fields q),
                 ManageEmpty,
                 SetDefaultImages (deleted_images q),
                 SaveFormset images_formset,
                 SetDefaultImages (deleted_images q),
                 CopyDefaultVariation]"
    by (simp add: variation_steps_calls)
  have n: "count_list (calls ?w') (SaveFormset images_formset)
             = count_list (calls w) (SaveFormset images_formset) + 1"
    unfolding c using ne by simp
  have "save_formset option_fields q images_formset (self, w) =
           Inr (self\<lparr>self_images_formset := Some images_formset\<rparr>, w)"
    by (rule save_formset_images [OF assms(1)])
  with ps c n show ?thesis by blast
qed

theorem images_formset_saved_once_after_variations_witness:
  "fs_model (ImageFormset (\<lambda>is. is @ [''12''])) = ProductImage
   \<and> fs_model (VariationFormset (\<lambda>vs. vs)) = ProductVariation
   \<and> save_formset [] [] (ImageFormset (\<lambda>is. is @ [''12'']))
        (\<lparr>self_model = Product, self_product = None, self_images_formset = None\<rparr>,
         \<lparr>variations = [], images = [''11''], product_priced = blank_priced, calls = []\<rparr>)
       = Inr (\<lparr>self_model = Product, self_product = None,
               self_images_formset = Some (ImageFormset (\<lambda>is. is @ [''12'']))\<rparr>,
              \<lparr>variations = [], images = [''11''], product_priced = blank_priced, calls = []\<rparr>)
   \<and> (\<exists>self' w'.
         save_related [] [] [ImageFormset (\<lambda>is. is @ [''12'']), VariationFormset (\<lambda>vs. vs)]
           (save_model 1
              (\<lparr>self_model = Product, self_product = None, self_images_formset = None\<rparr>,
               \<lparr>variations = [], images = [''11''], product_priced = blank_priced, calls = []\<rparr>))
           = Inr (self', w')
       \<and> calls w' =
            [SaveModel 1,
             SaveFormset (VariationFormset (\<lambda>vs. vs)),
             CreateFromOptions [],
             ManageEmpty,
             SetDefaultImages [],
             SaveFormset (ImageFormset (\<lambda>is. is @ [''12''])),
             SetDefaultImages [],
             CopyDefaultVariation]
       \<and> count_list (calls w') (SaveFormset (ImageFormset (\<lambda>is. is @ [''12'']))) = 1)"
proof -
  have sel: "selected_options [] [] = []" and del: "deleted_images [] = []"
    by (simp_all add: selected_options_def dict_def deleted_images_def)
  show ?thesis
    using images_formset_saved_once_after_variations [of "ImageFormset (\<lambda>is. is @ [''12''])"
        "VariationFormset (\<lambda>vs. vs)" "[]" "[]"
        "\<lparr>self_model = Product, self_product = None, self_images_formset = None\<rparr>"
        "\<lparr>variations = [], images = [''11''], product_priced = blank_priced, calls = []\<rparr>" 1]
    by (simp add: sel del)
qed

text \<open>
  C3. In a product save \<^verbatim>\<open>copy_default_variation\<close> is the last call made, right after
  the save of the images formset and the second \<^verbatim>\<open>set_default_images\<close>; so when the save
  completes, the price fields of the product are those of its designated default variation.
\<close>

theorem copy_default_variation_is_last:
  assumes "fs_model images_formset = ProductImage"
    and "fs_model formset = ProductVariation"
  shows "\<exists>self' w' before.
           save_related option_fields q [images_formset, formset] (save_model obj (self, w))
             = Inr (self', w')
         \<and> calls w' = before @ [SaveFormset images_formset,
                                 SetDefaultImages (deleted_images q),
                                 CopyDefaultVariation]
         \<and> last (calls w') = CopyDefaultVariation
         \<and> (\<forall>v. default_variation w' = Some v \<longrightarrow> product_priced w' = v_priced v)"
proof -
  let ?w6 = "set_default_images (deleted_images q)
               (super_save_formset images_formset
                 (set_default_images (deleted_images q)
                   (manage_empty
                     (create_from_options (selected_options option_fields q)
                       (super_save_formset formset (super_save_model obj w))))))"
  let ?w' = "variation_steps option_fields q formset images_formset (super_save_model obj w)"
  have w': "?w' = copy_default_variation ?w6"
    by (simp add: variation_steps_def)
  have "\<forall>v. default_variation ?w' = Some v \<longrightarrow> product_priced ?w' = v_priced v"
    unfolding w' using copy_default_variation_priced [of ?w6] by simp
  moreover have "calls ?w' =
      (calls w @ [SaveModel obj, SaveFormset formset,
                  CreateFromOptions (selected_options option_fields q), ManageEmpty,
                  SetDefaultImages (deleted_images q)])
      @ [SaveFormset images_formset, SetDefaultImages (deleted_images q), CopyDefaultVariation]"
    by (simp add: variation_steps_calls)
  moreover have "last (calls ?w') = CopyDefaultVariation"
    by (simp add: variation_steps_calls)
  ultimately show ?thesis
    using product_save [OF assms, of option_fields q obj self w] by blast
qed

theorem copy_default_variation_is_last_witness:
  "fs_model (ImageFormset (\<lambda>is. is)) = ProductImage
   \<and> fs_model (VariationFormset (\<lambda>vs. [\<lparr>v_options = [], v_default = True, v_image = None,
          v_priced = \<lparr>unit_price = Some 1000, sale_price = None, sale_from = None,
                      sale_to = None\<rparr>\<rparr>])) = ProductVariation
   \<and> (\<exists>self' w'.
         save_related [] []
           [ImageFormset (\<lambda>is. is),
            VariationFormset (\<lambda>vs. [\<lparr>v_options = [], v_default = True, v_image = None,
               v_priced = \<lparr>unit_price = Some 1000, sale_price = None, sale_from = None,
                           sale_to = None\<rparr>\<rparr>])]
           (save_model 1
              (\<lparr>self_model = Product, self_product = None, self_images_formset = None\<rparr>,
               \<lparr>variations = [], images = [], product_priced = blank_priced, calls = []\<rparr>))
           = Inr (self', w')
       \<and> last (calls w') = CopyDefaultVariation
       \<and> default_variation w' =
            Some \<lparr>v_options = [], v_default = True, v_image = None,
                  v_priced = \<lparr>unit_price = Some 1000, sale_price = None, sale_from = None,
                              sale_to = None\<rparr>\<rparr>
       \<and> product_priced w' =
            \<lparr>unit_price = Some 1000, sale_price = None, sale_from = None, sale_to = None\<rparr>)"
proof -
  let ?V = "\<lparr>v_options = [], v_default = True, v_image = None,
             v_priced = \<lparr>unit_price = Some 1000, sale_price = None, sale_from = None,
                         sale_to = None\<rparr>\<rparr>"
  let ?ifs = "ImageFormset (\<lambda>is. is)"
  let ?vfs = "VariationFormset (\<lambda>vs. [?V])"
  let ?self = "\<lparr>self_model = Product, self_product = None, self_images_formset = None\<rparr>"
  let ?w = "\<lparr>variations = [], images = [], product_priced = blank_priced, calls = []\<rparr>"
  have h1: "fs_model ?ifs = ProductImage" and h2: "fs_model ?vfs = ProductVariation"
    by simp_all
  from copy_default_variation_is_last [OF h1 h2, of "[]" "[]" 1 ?self ?w]
  obtain self' w' where r: "save_related [] [] [?ifs, ?vfs] (save_model 1 (?self, ?w)) = Inr (self', w')"
    and l: "last (calls w') = CopyDefaultVariation"
    and p: "\<forall>v. default_variation w' = Some v \<longrightarrow> product_priced w' = v_priced v"
    by blast
  from r have "variations w' = [?V]"
    by (auto simp: save_model_def save_formset_def super_save_model_def super_save_formset_def
          selected_options_def dict_def deleted_images_def create_from_options_def
          manage_empty_def set_default_images_def copy_default_variation_def
          default_variation_def Let_def)
  then have d: "default_variation w' = Some ?V"
    by (simp add: default_variation_def)
  with p have "product_priced w' = v_priced ?V" by blast
  with r l d h1 h2 show ?thesis by simp
qed

text \<open>
  C4. After a product save the product has at least one variation, whatever the
  administrator's edits did to the variations (deleting all of them included):
  \<^verbatim>\<open>manage_empty\<close> is among the calls of every such save. \<^verbatim>\<open>save_formset\<close> does not read
  \<^verbatim>\<open>SHOP_USE_VARIATIONS\<close>, so this holds in both modes; in neither mode does the variation
  inline forbid the one row a product needs.
\<close>

theorem product_save_keeps_a_variation:
  assumes "fs_model images_formset = ProductImage"
    and "fs_model formset = ProductVariation"
  shows "\<exists>self' w'.
           save_related option_fields q [images_formset, formset] (save_model obj (self, w))
             = Inr (self', w')
         \<and> variations w' \<noteq> []
         \<and> ManageEmpty \<in> set (drop (length (calls w)) (calls w'))
         \<and> inline_max_num (ProductVariationAdmin s) \<noteq> Some 0"
proof -
  let ?w' = "variation_steps option_fields q formset images_formset (super_save_model obj w)"
  have "variations ?w' \<noteq> []"
    by (rule variation_steps_nonempty [OF assms(1)])
  moreover have "ManageEmpty \<in> set (drop (length (calls w)) (calls ?w'))"
    by (simp add: variation_steps_calls)
  moreover have "inline_max_num (ProductVariationAdmin s) \<noteq> Some 0"
    by (simp add: ProductVariationAdmin_def variations_max_num_def)
  ultimately show ?thesis
    using product_save [OF assms, of option_fields q obj self w] by blast
qed

theorem product_save_keeps_a_variation_witness:
  "fs_model (ImageFormset (\<lambda>is. is)) = ProductImage
   \<and> fs_model (VariationFormset (\<lambda>vs. [])) = ProductVariation
   \<and> (\<exists>self' w'.
         save_related [] [] [ImageFormset (\<lambda>is. is), VariationFormset (\<lambda>vs. [])]
           (save_model 1
              (\<lparr>self_model = Product, self_product = None, self_images_formset = None\<rparr>,
               \<lparr>variations = [\<lparr>v_options = [], v_default = True, v_image = None,
                               v_priced = blank_priced\<rparr>],
                images = [], product_priced = blank_priced, calls = []\<rparr>))
           = Inr (self', w')
       \<and> variations w' \<noteq> []
       \<and> inline_max_num (ProductVariationAdmin
            \<lparr>SHOP_USE_VARIATIONS = False, SHOP_USE_RELATED_PRODUCTS = False,
             SHOP_USE_UPSELL_PRODUCTS = False\<rparr>) \<noteq> Some 0)"
proof -
  have h1: "fs_model (ImageFormset (\<lambda>is. is)) = ProductImage"
    and h2: "fs_model (VariationFormset (\<lambda>vs. [])) = ProductVariation"
    by simp_all
  from product_save_keeps_a_variation [OF h1 h2, of "[]" "[]" 1
      "\<lparr>self_model = Product, self_product = None, self_images_formset = None\<rparr>"
      "\<lparr>variations = [\<lparr>v_options = [], v_default = True, v_image = None,
                      v_priced = blank_priced\<rparr>],
        images = [], product_priced = blank_priced, calls = []\<rparr>"
      "\<lparr>SHOP_USE_VARIATIONS = False, SHOP_USE_RELATED_PRODUCTS = False,
        SHOP_USE_UPSELL_PRODUCTS = False\<rparr>"]
  show ?thesis using h1 h2 by blast
qed

text \<open>
  C6. The image ids handed to \<^verbatim>\<open>set_default_images\<close>, both times, are the values found
  under the \<^verbatim>\<open>-id\<close> keys of the rows marked for deletion: one for every submitted name
  that starts with \<^verbatim>\<open>images-\<close> and ends with \<^verbatim>\<open>-DELETE\<close>, and nothing else. For the
  name \<^verbatim>\<open>images-n-DELETE\<close> of a formset row (the row number \<open>n\<close> holds neither \<open>-\<close> nor
  \<open>D\<close>) the key looked up is \<^verbatim>\<open>images-n-id\<close>.
\<close>

theorem deleted_images_are_the_marked_rows:
  "set (deleted_images q) =
     (\<lambda>f. post_get q (replace ''-DELETE'' ''-id'' f))
       ` {f \<in> fst ` set q. startswith f ''images-'' \<and> endswith f ''-DELETE''}
   \<and> (CHR ''-'' \<notin> set n \<and> CHR ''D'' \<notin> set n \<longrightarrow>
        startswith (''images-'' @ n @ ''-DELETE'') ''images-''
      \<and> endswith (''images-'' @ n @ ''-DELETE'') ''-DELETE''
      \<and> replace ''-DELETE'' ''-id'' (''images-'' @ n @ ''-DELETE'') = ''images-'' @ n @ ''-id'')
   \<and> (fs_model formset = ProductVariation \<and> self_product self = Some product
        \<and> self_images_formset self = Some images_formset \<longrightarrow>
        (\<exists>self' w'.
           save_formset option_fields q formset (self, w) = Inr (self', w')
         \<and> calls w' = calls w @
              [SaveFormset formset,
               CreateFromOptions (selected_options option_fields q),
               ManageEmpty,
               SetDefaultImages (deleted_images q),
               SaveFormset images_formset,
               SetDefaultImages (deleted_images q),
               CopyDefaultVariation]))"
proof -
  have "set (deleted_images q) =
     (\<lambda>f. post_get q (replace ''-DELETE'' ''-id'' f))
       ` {f \<in> fst ` set q. startswith f ''images-'' \<and> endswith f ''-DELETE''}"
    by (simp add: deleted_images_def set_post_keys)
  moreover have "CHR ''-'' \<notin> set n \<and> CHR ''D'' \<notin> set n \<longrightarrow>
        startswith (''images-'' @ n @ ''-DELETE'') ''images-''
      \<and> endswith (''images-'' @ n @ ''-DELETE'') ''-DELETE''
      \<and> replace ''-DELETE'' ''-id'' (''images-'' @ n @ ''-DELETE'') = ''images-'' @ n @ ''-id''"
    using replace_DELETE_row [of n] row_key_matches [of n] by blast
  moreover have "fs_model formset = ProductVariation \<and> self_product self = Some product
        \<and> self_images_formset self = Some images_formset \<longrightarrow>
        (\<exists>self' w'.
           save_formset option_fields q formset (self, w) = Inr (self', w')
         \<and> calls w' = calls w @
              [SaveFormset formset,
               CreateFromOptions (selected_options option_fields q),
               ManageEmpty,
               SetDefaultImages (deleted_images q),
               SaveFormset images_formset,
               SetDefaultImages (deleted_images q),
               CopyDefaultVariation])"
    by (simp add: save_formset_variations variation_steps_calls)
  ultimately show ?thesis by blast
qed

theorem deleted_images_are_the_marked_rows_witness:
  "CHR ''-'' \<notin> set ''10'' \<and> CHR ''D'' \<notin> set ''10''
   \<and> replace ''-DELETE'' ''-id'' ''images-10-DELETE'' = ''images-10-id''
   \<and> deleted_images [(''images-0-id'', ''11''), (''images-0-DELETE'', ''on''),
                      (''images-1-id'', ''12''), (''images-10-id'', ''15''),
                      (''images-10-DELETE'', ''on''), (''title'', ''x'')]
       = [Some ''11'', Some ''15'']
   \<and> fs_model (VariationFormset (\<lambda>vs. vs)) = ProductVariation
   \<and> (\<exists>self' w'.
         save_formset [] [(''images-0-id'', ''11''), (''images-0-DELETE'', ''on''),
                          (''images-1-id'', ''12''), (''images-10-id'', ''15''),
                          (''images-10-DELETE'', ''on''), (''title'', ''x'')]
           (VariationFormset (\<lambda>vs. vs))
           (\<lparr>self_model = Product, self_product = Some 1,
             self_images_formset = Some (ImageFormset (\<lambda>is. is))\<rparr>,
            \<lparr>variations = [], images = [], product_priced = blank_priced, calls = []\<rparr>)
           = Inr (self', w')
       \<and> calls w' =
            [SaveFormset (VariationFormset (\<lambda>vs. vs)),
             CreateFromOptions [],
             ManageEmpty,
             SetDefaultImages [Some ''11'', Some ''15''],
             SaveFormset (ImageFormset (\<lambda>is. is)),
             SetDefaultImages [Some ''11'', Some ''15''],
             CopyDefaultVariation])"
proof -
  let ?q = "[(''images-0-id'', ''11''), (''images-0-DELETE'', ''on''),
             (''images-1-id'', ''12''), (''images-10-id'', ''15''),
             (''images-10-DELETE'', ''on''), (''title'', ''x'')]"
  have del: "deleted_images ?q = [Some ''11'', Some ''15'']"
    by code_simp
  have sel: "selected_options [] ?q = []"
    by (simp add: selected_options_def dict_def)
  show ?thesis
    using deleted_images_are_the_marked_rows [of ?q "''10''" "VariationFormset (\<lambda>vs. vs)"
        "\<lparr>self_model = Product, self_product = Some 1,
          self_images_formset = Some (ImageFormset (\<lambda>is. is))\<rparr>" 1 "ImageFormset (\<lambda>is. is)"
        "[]" "\<lparr>variations = [], images = [], product_priced = blank_priced, calls = []\<rparr>"]
    by (simp add: del sel)
qed

subsection \<open>Errors\<close>




subsection \<open>The constructor\<close>

lemma insert_extra_fields_list:
  assumes "fs_fields fs = FList a" and "a < length h"
  shows "insert_extra_fields check (fs # r) mfs h = Inr (h[a := foldl (insert_step check) (h ! a) mfs])"
  using assms(2)
proof (induction mfs arbitrary: h)
  case Nil
  then show ?case by simp
next
  case (Cons f mfs)
  let ?h = "h[a := insert_step check (h ! a) f]"
  have step: "insert_extra_fields check (fs # r) (f # mfs) h = insert_extra_fields check (fs # r) mfs ?h"
  proof (cases "mf_name f \<notin> set check \<and> mf_editable f")
    case True
    then show ?thesis
      using assms(1) by (simp add: mutate_first_fields_def insert_step_def)
  next
    case False
    then have "insert_step check (h ! a) f = h ! a" by (auto simp: insert_step_def)
    then have "?h = h" by simp
    with False show ?thesis by auto
  qed
  have "a < length ?h" using Cons.prems by simp
  from Cons.IH [OF this] have "insert_extra_fields check (fs # r) mfs ?h
      = Inr (?h[a := foldl (insert_step check) (?h ! a) mfs])" .
  with step Cons.prems show ?case by simp
qed

lemma foldl_insert_step_rev:
  assumes "3 \<le> length xs"
  shows "foldl (insert_step check) xs (rev mfs) =
           take 3 xs
           @ map Single (map mf_name (filter (\<lambda>f. mf_name f \<notin> set check \<and> mf_editable f) mfs))
           @ drop 3 xs"
proof (induction mfs)
  case Nil
  then show ?case by simp
next
  case (Cons f mfs)
  let ?M = "map Single (map mf_name (filter (\<lambda>f. mf_name f \<notin> set check \<and> mf_editable f) mfs))"
  have t: "take 3 (take 3 xs @ ?M @ drop 3 xs) = take 3 xs"
    "drop 3 (take 3 xs @ ?M @ drop 3 xs) = ?M @ drop 3 xs"
    using assms by simp_all
  have "foldl (insert_step check) xs (rev (f # mfs))
          = insert_step check (take 3 xs @ ?M @ drop 3 xs) f"
    by (simp add: Cons)
  also have "\<dots> = take 3 xs
           @ map Single (map mf_name (filter (\<lambda>f. mf_name f \<notin> set check \<and> mf_editable f) (f # mfs)))
           @ drop 3 xs"
  proof (cases "mf_name f \<notin> set check \<and> mf_editable f")
    case True
    then show ?thesis
      unfolding insert_step_def list_insert_def t by simp
  next
    case False
    then show ?thesis by (auto simp: insert_step_def)
  qed
  finally show ?case .
qed


lemma resolve_frame:
  assumes "wf_fieldsets h fss" and "take (length h) h' = h"
  shows "resolve h' fss = resolve h fss"
proof -
  have "\<And>a. a < length h \<Longrightarrow> h' ! a = h ! a"
  proof -
    fix a assume "a < length h"
    then have "take (length h) h' ! a = h' ! a" by simp
    with assms(2) show "h' ! a = h ! a" by simp
  qed
  with assms(1) show ?thesis
    by (auto simp: resolve_def resolve_fields_def wf_fieldsets_def list_all_iff
             split: fields_val.splits)
qed

lemma wf_fieldsets_append: "wf_fieldsets h fss \<Longrightarrow> wf_fieldsets (h @ later) fss"
  by (auto simp: wf_fieldsets_def list_all_iff split: fields_val.splits)

lemma product_fieldsets_shape:
  assumes "fs_fields d = FList a"
    and "product_fieldsets s option_fields (d # ds) h0 = Inr (pf, h1)"
  shows "\<exists>d' rest. pf = d' # rest \<and> fs_fields d' = FList (Suc (length h0))
           \<and> Suc (length h0) < length h1 \<and> 3 \<le> length (h1 ! Suc (length h0))
           \<and> wf_fieldsets h1 pf"
proof -
  let ?h = "h0 @ [map Single option_fields]"
  let ?d = "d\<lparr>fs_fields := FList (Suc (length h0))\<rparr>"
  from product_fieldsets_result [OF assms(1), of ds h0 option_fields s] obtain r hh
    where dc: "deepcopy (d # ds) ?h = (?d # r, hh)"
      and l: "Suc (length h0) < length hh"
      and p: "product_fieldsets s option_fields (d # ds) h0 =
               Inr (?d # (if SHOP_USE_VARIATIONS s then [create_variations_fieldset (length h0)] else [])
                      @ r @ other_products_fieldset s,
                    hh[Suc (length h0) := product_first_fields (?h ! a)])"
    by blast
  from p assms(2)
  have pf: "pf = ?d # (if SHOP_USE_VARIATIONS s then [create_variations_fieldset (length h0)] else [])
                   @ r @ other_products_fieldset s"
    and h1: "h1 = hh[Suc (length h0) := product_first_fields (?h ! a)]"
    by simp_all
  have len: "3 \<le> length (h1 ! Suc (length h0))"
    using l by (simp add: h1 product_first_fields_def list_insert_def)
  have r: "\<And>fs a'. fs \<in> set r \<Longrightarrow> fs_fields fs = FList a' \<Longrightarrow> a' < length hh"
    using deepcopy_fresh [OF dc] by auto
  have "wf_fieldsets h1 pf"
    unfolding wf_fieldsets_def list_all_iff
  proof
    fix fs assume "fs \<in> set pf"
    then consider "fs = ?d" | "SHOP_USE_VARIATIONS s" "fs = create_variations_fieldset (length h0)"
      | "fs \<in> set r" | "fs \<in> set (other_products_fieldset s)"
      unfolding pf by (auto split: if_splits)
    then show "case fs_fields fs of FList a \<Rightarrow> a < length h1 | FTuple es \<Rightarrow> True"
    proof cases
      case 1
      then show ?thesis using l by (simp add: h1)
    next
      case 2
      then show ?thesis using l by (simp add: h1 create_variations_fieldset_def)
    next
      case 3
      then show ?thesis using r [of fs] by (auto simp: h1 split: fields_val.splits)
    next
      case 4
      then show ?thesis by (auto simp: other_products_fieldset_def split: if_splits)
    qed
  qed
  with pf l len h1 show ?thesis by simp
qed

lemma ProductAdmin_init_result:
  assumes pf: "pf = d' # rest" "fs_fields d' = FList a0" "a0 < length h" "3 \<le> length (h ! a0)"
    and model: "ac_model self \<noteq> Product"
    and eq: "resolve h (ac_fieldsets self) = resolve h pf"
  shows "\<exists>fieldsets h'.
           ProductAdmin_init pf product_field_names self h = Inr (fieldsets, h')
         \<and> take (length h) h' = h
         \<and> fieldsets \<noteq> [] \<and> fs_fields (hd fieldsets) = FList (length h)
         \<and> length h < length h'
         \<and> h' ! length h =
             take 3 (h ! a0) @ map Single (extra_fields product_field_names self) @ drop 3 (h ! a0)"
proof -
  from eq pf(1) obtain sfs srest where s: "ac_fieldsets self = sfs # srest"
    and f: "resolve_fields h (fs_fields sfs) = resolve_fields h (fs_fields d')"
    by (cases "ac_fieldsets self") (auto simp: resolve_def)
  from f pf(2) obtain b where b: "fs_fields sfs = FList b" and hb: "h ! b = h ! a0"
    by (cases "fs_fields sfs") (auto simp: resolve_fields_def)
  obtain fss hd1 where dc: "deepcopy (sfs # srest) h = (fss, hd1)"
    by (cases "deepcopy (sfs # srest) h")
  from deepcopy_first_list [OF dc b] obtain r
    where fss: "fss = sfs\<lparr>fs_fields := FList (length h)\<rparr> # r"
      and l: "length h < length hd1"
      and c: "hd1 ! length h = h ! b"
      and t: "take (length h) hd1 = h"
    by blast
  let ?new = "take 3 (h ! a0) @ map Single (extra_fields product_field_names self) @ drop 3 (h ! a0)"
  have loop: "insert_extra_fields (check_fields product_field_names self) fss
                (rev (ac_model_fields self)) hd1 = Inr (hd1[length h := ?new])"
    unfolding fss
    using insert_extra_fields_list [of "sfs\<lparr>fs_fields := FList (length h)\<rparr>" "length h" hd1
            "check_fields product_field_names self" r "rev (ac_model_fields self)"]
          foldl_insert_step_rev [of "h ! a0" "check_fields product_field_names self" "ac_model_fields self"]
          l c hb pf(4)
    by (simp add: extra_fields_def)
  have init: "ProductAdmin_init pf product_field_names self h = Inr (fss, hd1[length h := ?new])"
    using model eq s dc loop by (simp add: ProductAdmin_init_def)
  have "take (length h) (hd1[length h := ?new]) = h"
    using t by simp
  with init fss l show ?thesis by simp
qed


text \<open>
  C9. \<^verbatim>\<open>ProductAdmin.fieldsets\<close> is what the module builds, and further list objects may
  have been allocated since. Instantiating the admin for a model other than \<^verbatim>\<open>Product\<close>
  whose fieldsets equal \<^verbatim>\<open>ProductAdmin.fieldsets\<close> copies the fieldsets first: every
  list object that existed keeps its content, so \<^verbatim>\<open>ProductAdmin.fieldsets\<close> and the
  fieldsets of every other admin class read as before, and the instance's first fieldset
  is a fresh list. That list is the old one with the extra names inserted at index 3: the
  names of the model's editable fields that are not fields of \<^verbatim>\<open>Product\<close>, not
  \<^verbatim>\<open>product_ptr\<close> and not in the exclude list of the admin or of its form, in the
  declared order of the model's fields.
\<close>

theorem init_copies_fieldsets_before_inserting:
  assumes "fs_fields d = FList a"
    and "product_fieldsets s option_fields (d # ds) h0 = Inr (ProductAdmin_fieldsets, h1)"
    and "h = h1 @ later"
    and "ac_model self \<noteq> Product"
    and "resolve h (ac_fieldsets self) = resolve h ProductAdmin_fieldsets"
  shows "\<exists>fieldsets h' old.
           ProductAdmin_init ProductAdmin_fieldsets product_field_names self h = Inr (fieldsets, h')
         \<and> take (length h) h' = h
         \<and> wf_fieldsets h ProductAdmin_fieldsets
         \<and> resolve h' ProductAdmin_fieldsets = resolve h ProductAdmin_fieldsets
         \<and> (\<forall>fss. wf_fieldsets h fss \<longrightarrow> resolve h' fss = resolve h fss)
         \<and> ProductAdmin_fieldsets \<noteq> [] \<and> fieldsets \<noteq> []
         \<and> resolve_fields h (fs_fields (hd ProductAdmin_fieldsets)) = ListValue old
         \<and> fs_fields (hd fieldsets) = FList (length h)
         \<and> resolve_fields h' (fs_fields (hd fieldsets)) =
             ListValue
               (take 3 old
                @ map Single
                    (map mf_name
                       (filter (\<lambda>field. mf_editable field
                                  \<and> mf_name field \<notin> set product_field_names
                                  \<and> mf_name field \<noteq> ''product_ptr''
                                  \<and> mf_name field \<notin> (case ac_exclude self of None \<Rightarrow> {}
                                                        | Some names \<Rightarrow> set names)
                                  \<and> mf_name field \<notin> (case ac_form_exclude self of None \<Rightarrow> {}
                                                        | Some names \<Rightarrow> set names))
                               (ac_model_fields self)))
                @ drop 3 old)"
proof -
  from product_fieldsets_shape [OF assms(1,2)] obtain d' rest
    where pf: "ProductAdmin_fieldsets = d' # rest"
      and a0: "fs_fields d' = FList (Suc (length h0))"
      and l1: "Suc (length h0) < length h1"
      and len: "3 \<le> length (h1 ! Suc (length h0))"
      and wf1: "wf_fieldsets h1 ProductAdmin_fieldsets"
    by blast
  let ?a0 = "Suc (length h0)"
  have l: "?a0 < length h" and len': "3 \<le> length (h ! ?a0)"
    using l1 len assms(3) by (simp_all add: nth_append)
  have wf: "wf_fieldsets h ProductAdmin_fieldsets"
    unfolding assms(3) using wf1 by (rule wf_fieldsets_append)
  from ProductAdmin_init_result [OF pf a0 l len' assms(4,5), of product_field_names]
  obtain fieldsets h'
    where init: "ProductAdmin_init ProductAdmin_fieldsets product_field_names self h = Inr (fieldsets, h')"
      and t: "take (length h) h' = h"
      and ne: "fieldsets \<noteq> []"
      and first: "fs_fields (hd fieldsets) = FList (length h)"
      and new: "h' ! length h =
             take 3 (h ! ?a0) @ map Single (extra_fields product_field_names self) @ drop 3 (h ! ?a0)"
    by blast
  have frame: "\<forall>fss. wf_fieldsets h fss \<longrightarrow> resolve h' fss = resolve h fss"
    using resolve_frame [OF _ t] by blast
  have names: "extra_fields product_field_names self =
      map mf_name
        (filter (\<lambda>field. mf_editable field
                   \<and> mf_name field \<notin> set product_field_names
                   \<and> mf_name field \<noteq> ''product_ptr''
                   \<and> mf_name field \<notin> (case ac_exclude self of None \<Rightarrow> {} | Some names \<Rightarrow> set names)
                   \<and> mf_name field \<notin> (case ac_form_exclude self of None \<Rightarrow> {}
                                         | Some names \<Rightarrow> set names))
                (ac_model_fields self))"
  proof -
    have "\<And>n. (n \<notin> set (check_fields product_field_names self)) =
             (n \<notin> set product_field_names \<and> n \<noteq> ''product_ptr''
              \<and> n \<notin> (case ac_exclude self of None \<Rightarrow> {} | Some names \<Rightarrow> set names)
              \<and> n \<notin> (case ac_form_exclude self of None \<Rightarrow> {} | Some names \<Rightarrow> set names))"
      by (cases "ac_exclude self"; cases "ac_form_exclude self") (auto simp: check_fields_def)
    then have pt: "\<And>field. (mf_name field \<notin> set (check_fields product_field_names self)
                         \<and> mf_editable field)
             = (mf_editable field
                   \<and> mf_name field \<notin> set product_field_names
                   \<and> mf_name field \<noteq> ''product_ptr''
                   \<and> mf_name field \<notin> (case ac_exclude self of None \<Rightarrow> {} | Some names \<Rightarrow> set names)
                   \<and> mf_name field \<notin> (case ac_form_exclude self of None \<Rightarrow> {}
                                         | Some names \<Rightarrow> set names))"
      by blast
    show ?thesis by (simp only: extra_fields_def pt)
  qed
  have old: "resolve_fields h (fs_fields (hd ProductAdmin_fieldsets)) = ListValue (h ! ?a0)"
    by (simp add: pf a0 resolve_fields_def)
  have res: "resolve_fields h' (fs_fields (hd fieldsets)) = ListValue (h' ! length h)"
    by (simp add: first resolve_fields_def)
  have fin: "resolve_fields h' (fs_fields (hd fieldsets)) =
             ListValue
               (take 3 (h ! ?a0)
                @ map Single
                    (map mf_name
                       (filter (\<lambda>field. mf_editable field
                                  \<and> mf_name field \<notin> set product_field_names
                                  \<and> mf_name field \<noteq> ''product_ptr''
                                  \<and> mf_name field \<notin> (case ac_exclude self of None \<Rightarrow> {}
                                                        | Some names \<Rightarrow> set names)
                                  \<and> mf_name field \<notin> (case ac_form_exclude self of None \<Rightarrow> {}
                                                        | Some names \<Rightarrow> set names))
                               (ac_model_fields self)))
                @ drop 3 (h ! ?a0))"
    unfolding res new names ..
  have pfne: "ProductAdmin_fieldsets \<noteq> []" by (simp add: pf)
  have rpf: "resolve h' ProductAdmin_fieldsets = resolve h ProductAdmin_fieldsets"
    using frame wf by blast
  from init t wf rpf frame pfne ne old first fin show ?thesis
    by blast
qed


theorem init_copies_fieldsets_before_inserting_witness:
  "fs_fields \<lparr>fs_title = None, fs_classes = None, fs_fields = FList 0\<rparr> = FList 0
   \<and> product_fieldsets
        \<lparr>SHOP_USE_VARIATIONS = True, SHOP_USE_RELATED_PRODUCTS = True,
         SHOP_USE_UPSELL_PRODUCTS = False\<rparr>
        [''option1'', ''option2'']
        [\<lparr>fs_title = None, fs_classes = None, fs_fields = FList 0\<rparr>,
         \<lparr>fs_title = Some ''Meta data'', fs_classes = Some [''collapse-closed''],
          fs_fields = FList 1\<rparr>]
        [[Single ''title'', Single ''status'', Tuple [''publish_date'', ''expiry_date'']],
         [Single ''_meta_title'', Single ''slug'']]
      = Inr ([\<lparr>fs_title = None, fs_classes = None, fs_fields = FList 3\<rparr>,
              \<lparr>fs_title = Some ''Create new variations'',
               fs_classes = Some [''create-variations''], fs_fields = FList 2\<rparr>,
              \<lparr>fs_title = Some ''Meta data'', fs_classes = Some [''collapse-closed''],
               fs_fields = FList 4\<rparr>,
              \<lparr>fs_title = Some ''Other products'', fs_classes = Some [''collapse-closed''],
               fs_fields = FTuple [Single ''related_products'']\<rparr>],
             [[Single ''title'', Single ''status'', Tuple [''publish_date'', ''expiry_date'']],
              [Single ''_meta_title'', Single ''slug''],
              [Single ''option1'', Single ''option2''],
              [Single ''title'', Single ''status'', Single ''available'', Single ''manufacturer'',
               Tuple [''publish_date'', ''expiry_date''], Single ''content'', Single ''categories''],
              [Single ''_meta_title'', Single ''slug'']])
   \<and> (\<exists>fieldsets h'.
         ProductAdmin_init
           [\<lparr>fs_title = None, fs_classes = None, fs_fields = FList 3\<rparr>,
            \<lparr>fs_title = Some ''Create new variations'',
             fs_classes = Some [''create-variations''], fs_fields = FList 2\<rparr>,
            \<lparr>fs_title = Some ''Meta data'', fs_classes = Some [''collapse-closed''],
             fs_fields = FList 4\<rparr>,
            \<lparr>fs_title = Some ''Other products'', fs_classes = Some [''collapse-closed''],
             fs_fields = FTuple [Single ''related_products'']\<rparr>]
           [''id'', ''title'']
           \<lparr>ac_model = OtherModel ''ProductStone'',
            ac_fieldsets =
              [\<lparr>fs_title = None, fs_classes = None, fs_fields = FList 3\<rparr>,
               \<lparr>fs_title = Some ''Create new variations'',
                fs_classes = Some [''create-variations''], fs_fields = FList 2\<rparr>,
               \<lparr>fs_title = Some ''Meta data'', fs_classes = Some [''collapse-closed''],
                fs_fields = FList 4\<rparr>,
               \<lparr>fs_title = Some ''Other products'', fs_classes = Some [''collapse-closed''],
                fs_fields = FTuple [Single ''related_products'']\<rparr>],
            ac_exclude = None,
            ac_form_exclude = Some [''weight''],
            ac_model_fields =
              [\<lparr>mf_name = ''id'', mf_editable = True\<rparr>,
               \<lparr>mf_name = ''title'', mf_editable = True\<rparr>,
               \<lparr>mf_name = ''product_ptr'', mf_editable = True\<rparr>,
               \<lparr>mf_name = ''color'', mf_editable = True\<rparr>,
               \<lparr>mf_name = ''weight'', mf_editable = True\<rparr>,
               \<lparr>mf_name = ''origin'', mf_editable = True\<rparr>,
               \<lparr>mf_name = ''internal_code'', mf_editable = False\<rparr>]\<rparr>
           [[Single ''title'', Single ''status'', Tuple [''publish_date'', ''expiry_date'']],
            [Single ''_meta_title'', Single ''slug''],
            [Single ''option1'', Single ''option2''],
            [Single ''title'', Single ''status'', Single ''available'', Single ''manufacturer'',
             Tuple [''publish_date'', ''expiry_date''], Single ''content'', Single ''categories''],
            [Single ''_meta_title'', Single ''slug'']]
           = Inr (fieldsets, h')
       \<and> take 5 h' =
            [[Single ''title'', Single ''status'', Tuple [''publish_date'', ''expiry_date'']],
             [Single ''_meta_title'', Single ''slug''],
             [Single ''option1'', Single ''option2''],
             [Single ''title'', Single ''status'', Single ''available'', Single ''manufacturer'',
              Tuple [''publish_date'', ''expiry_date''], Single ''content'', Single ''categories''],
             [Single ''_meta_title'', Single ''slug'']]
       \<and> fs_fields (hd fieldsets) = FList 5
       \<and> resolve_fields h' (fs_fields (hd fieldsets)) =
            ListValue
              [Single ''title'', Single ''status'', Single ''available'',
               Single ''color'', Single ''origin'',
               Single ''manufacturer'', Tuple [''publish_date'', ''expiry_date''],
               Single ''content'', Single ''categories''])"
proof -
  let ?s = "\<lparr>SHOP_USE_VARIATIONS = True, SHOP_USE_RELATED_PRODUCTS = True,
             SHOP_USE_UPSELL_PRODUCTS = False\<rparr>"
  let ?d = "\<lparr>fs_title = None, fs_classes = None, fs_fields = FList 0\<rparr>"
  let ?ds = "[\<lparr>fs_title = Some ''Meta data'', fs_classes = Some [''collapse-closed''],
               fs_fields = FList 1\<rparr>]"
  let ?h0 = "[[Single ''title'', Single ''status'', Tuple [''publish_date'', ''expiry_date'']],
              [Single ''_meta_title'', Single ''slug'']]"
  let ?pf = "[\<lparr>fs_title = None, fs_classes = None, fs_fields = FList 3\<rparr>,
              \<lparr>fs_title = Some ''Create new variations'',
               fs_classes = Some [''create-variations''], fs_fields = FList 2\<rparr>,
              \<lparr>fs_title = Some ''Meta data'', fs_classes = Some [''collapse-closed''],
               fs_fields = FList 4\<rparr>,
              \<lparr>fs_title = Some ''Other products'', fs_classes = Some [''collapse-closed''],
               fs_fields = FTuple [Single ''related_products'']\<rparr>]"
  let ?h1 = "[[Single ''title'', Single ''status'', Tuple [''publish_date'', ''expiry_date'']],
              [Single ''_meta_title'', Single ''slug''],
              [Single ''option1'', Single ''option2''],
              [Single ''title'', Single ''status'', Single ''available'', Single ''manufacturer'',
               Tuple [''publish_date'', ''expiry_date''], Single ''content'', Single ''categories''],
              [Single ''_meta_title'', Single ''slug'']]"
  let ?self = "\<lparr>ac_model = OtherModel ''ProductStone'',
            ac_fieldsets = ?pf,
            ac_exclude = None,
            ac_form_exclude = Some [''weight''],
            ac_model_fields =
              [\<lparr>mf_name = ''id'', mf_editable = True\<rparr>,
               \<lparr>mf_name = ''title'', mf_editable = True\<rparr>,
               \<lparr>mf_name = ''product_ptr'', mf_editable = True\<rparr>,
               \<lparr>mf_name = ''color'', mf_editable = True\<rparr>,
               \<lparr>mf_name = ''weight'', mf_editable = True\<rparr>,
               \<lparr>mf_name = ''origin'', mf_editable = True\<rparr>,
               \<lparr>mf_name = ''internal_code'', mf_editable = False\<rparr>]\<rparr>"
  have a1: "fs_fields ?d = FList 0" by simp
  have a2: "product_fieldsets ?s [''option1'', ''option2''] (?d # ?ds) ?h0 = Inr (?pf, ?h1)"
    by (simp add: product_fieldsets_def deepcopy_def mutate_first_fields_def list_insert_def
          other_product_fields_def Let_def)
  have a3: "?h1 = ?h1 @ []" by simp
  have a4: "ac_model ?self \<noteq> Product" by simp
  have a5: "resolve ?h1 (ac_fieldsets ?self) = resolve ?h1 ?pf" by simp
  from init_copies_fieldsets_before_inserting [OF a1 a2 a3 a4 a5, of "[''id'', ''title'']"]
  obtain fieldsets h' old
    where i: "ProductAdmin_init ?pf [''id'', ''title''] ?self ?h1 = Inr (fieldsets, h')"
      and t: "take (length ?h1) h' = ?h1"
      and o: "resolve_fields ?h1 (fs_fields (hd ?pf)) = ListValue old"
      and f: "fs_fields (hd fieldsets) = FList (length ?h1)"
      and r: "resolve_fields h' (fs_fields (hd fieldsets)) =
             ListValue
               (take 3 old
                @ map Single
                    (map mf_name
                       (filter (\<lambda>field. mf_editable field
                                  \<and> mf_name field \<notin> set [''id'', ''title'']
                                  \<and> mf_name field \<noteq> ''product_ptr''
                                  \<and> mf_name field \<notin> (case ac_exclude ?self of None \<Rightarrow> {}
                                                        | Some names \<Rightarrow> set names)
                                  \<and> mf_name field \<notin> (case ac_form_exclude ?self of None \<Rightarrow> {}
                                                        | Some names \<Rightarrow> set names))
                               (ac_model_fields ?self)))
                @ drop 3 old)"
    by blast
  from o have old: "old = [Single ''title'', Single ''status'', Single ''available'',
      Single ''manufacturer'', Tuple [''publish_date'', ''expiry_date''], Single ''content'',
      Single ''categories'']"
    by (simp add: resolve_fields_def)
  have len5: "length ?h1 = 5" by simp
  have t': "take 5 h' = ?h1" using t by (simp only: len5)
  have f': "fs_fields (hd fieldsets) = FList 5" using f by (simp only: len5)
  have r': "resolve_fields h' (fs_fields (hd fieldsets)) =
            ListValue
              [Single ''title'', Single ''status'', Single ''available'',
               Single ''color'', Single ''origin'',
               Single ''manufacturer'', Tuple [''publish_date'', ''expiry_date''],
               Single ''content'', Single ''categories'']"
    unfolding r old by simp
  from a1 a2 i t' f' r' show ?thesis by blast
qed


end
